theory Spec2Isabelle
  imports Main "HOL-Library.Sublist"
begin

section \<open>Go values\<close>

text \<open>
  Native Go values as they occur behind \<open>interface{}\<close> in the two programs: the scalars
  and containers produced by the JSON and YAML decoders, and Go \<open>error\<close> values.
  Strings are byte strings. Numbers are restricted to integers, and these are unbounded:
  the programs do no arithmetic on them.
\<close>

datatype native =
    NNull
  | NBool bool
  | NInt int
  | NString string
  | NList "native list"
  | NMap "(string \<times> native) list"
  | NError string

text \<open>
  The expression engine's values (\<open>ref.Val\<close>). \<open>VErr\<close> is the in-band error value built
  by \<open>types.NewErr\<close>.
\<close>

datatype val =
    VNull
  | VBool bool
  | VInt int
  | VString string
  | VList "val list"
  | VMap "(string \<times> val) list"
  | VErr string

section \<open>Go string helpers used by the Template Scanner\<close>

definition HasPrefix :: "string \<Rightarrow> string \<Rightarrow> bool" where
  "HasPrefix s p = (length p \<le> length s \<and> take (length p) s = p)"

definition TrimPrefix :: "string \<Rightarrow> string \<Rightarrow> string" where
  "TrimPrefix s p = (if HasPrefix s p then drop (length p) s else s)"

definition HasSuffix :: "string \<Rightarrow> string \<Rightarrow> bool" where
  "HasSuffix s p = (length p \<le> length s \<and> drop (length s - length p) s = p)"

definition TrimSuffix :: "string \<Rightarrow> string \<Rightarrow> string" where
  "TrimSuffix s p = (if HasSuffix s p then take (length s - length p) s else s)"

text \<open>
  \<open>regexp.Match\<close> with the pattern \<open>\$\(.*\)\<close>. The pattern is not anchored, so the
  match may start anywhere in the value; \<open>.\<close> matches every byte but the line feed.
  \<open>match_close\<close> is the tail \<open>.*\)\<close> of the pattern, tried at the head of its argument.
\<close>

fun match_close :: "string \<Rightarrow> bool" where
  "match_close [] = False"
| "match_close (c # cs) = (c = CHR '')'' \<or> (c \<noteq> CHR 0x0A \<and> match_close cs))"

fun regexp_Match :: "string \<Rightarrow> bool" where
  "regexp_Match [] = False"
| "regexp_Match (c # cs) =
     ((c = CHR ''$'' \<and> (case cs of [] \<Rightarrow> False | c' # cs' \<Rightarrow> c' = CHR ''('' \<and> match_close cs'))
      \<or> regexp_Match cs)"

text \<open>The inner expression text of a placeholder value (yaml.go, lines 168 and 169).\<close>

definition inner_text :: "string \<Rightarrow> string" where
  "inner_text s = TrimSuffix (TrimPrefix s ''$('') '')''"

section \<open>Conversions between native values and engine values\<close>

text \<open>
  Modelled from the spec: the Value Adapter's direct path (section 4.1). The engine's type
  adapter, called as \<open>types.DefaultTypeAdapter.NativeToValue\<close> and applied by
  \<open>prg.Eval\<close> to the input bindings, is not in the sources. Scalars and containers
  convert structurally; a Go \<open>error\<close> has no direct conversion.
\<close>

fun NativeToValue :: "native \<Rightarrow> val" where
  "NativeToValue NNull = VNull"
| "NativeToValue (NBool b) = VBool b"
| "NativeToValue (NInt i) = VInt i"
| "NativeToValue (NString s) = VString s"
| "NativeToValue (NList xs) = VList (map NativeToValue xs)"
| "NativeToValue (NMap kvs) = VMap (map (\<lambda>(k, v). (k, NativeToValue v)) kvs)"
| "NativeToValue (NError e) = VErr ''unsupported type conversion''"

text \<open>
  Modelled from the spec: the way back (\<open>fromEngineValue\<close> of section 4.1), called as
  \<open>Value()\<close> on an engine value; it is not in the sources either.
\<close>

fun Value :: "val \<Rightarrow> native" where
  "Value VNull = NNull"
| "Value (VBool b) = NBool b"
| "Value (VInt i) = NInt i"
| "Value (VString s) = NString s"
| "Value (VList xs) = NList (map Value xs)"
| "Value (VMap kvs) = NMap (map (\<lambda>(k, v). (k, Value v)) kvs)"
| "Value (VErr e) = NError e"

section \<open>Error values: formats without operands\<close>

text \<open>
  \<open>types.NewErr(format, args...)\<close> of the engine builds its error value from
  \<open>fmt.Errorf(format, args...)\<close>. The programs call it with one argument, so that
  argument is the format and there is no operand. Neither library is in the sources. What
  follows is the treatment of a format by Go's \<open>fmt\<close> (\<open>doPrintf\<close>) when it has no
  operand: text is copied up to a percent sign; after the percent sign come flags, an
  argument index in brackets, a width, a precision with its own index, a last index and
  the verb. The verb \<open>%\<close> prints a percent sign; every other verb prints a note that
  its operand is missing, or that the index is bad; a star as width or precision and a
  format that ends before the verb print notes of their own.
\<close>

definition is_flag :: "char \<Rightarrow> bool" where
  "is_flag c = (c \<in> set [CHR ''#'', CHR ''0'', CHR ''+'', CHR ''-'', CHR '' ''])"

definition is_digit :: "char \<Rightarrow> bool" where
  "is_digit c = (48 \<le> (of_char c :: nat) \<and> (of_char c :: nat) \<le> 57)"

text \<open>
  \<open>parsenum\<close> reads a decimal number; the result is the text after it, or \<open>None\<close>
  when the number is too large, which ends the directive at the end of the text.
\<close>

fun parsenum :: "nat \<Rightarrow> string \<Rightarrow> string option" where
  "parsenum num [] = Some []"
| "parsenum num (c # cs) =
     (if is_digit c
      then (if 1000000 < num then None else parsenum (num * 10 + (of_char c - 48)) cs)
      else Some (c # cs))"

definition skip_num :: "string \<Rightarrow> string" where
  "skip_num s = (case parsenum 0 s of None \<Rightarrow> [] | Some r \<Rightarrow> r)"

text \<open>
  \<open>parseArgNumber\<close> reads a bracketed index from a text that starts with the bracket:
  whether it is a number, and how many bytes to skip.
\<close>

definition parseArgNumber :: "string \<Rightarrow> bool \<times> nat" where
  "parseArgNumber s =
     (if length s < 3 then (False, 1)
      else if CHR '']'' \<in> set (tl s) then
        (let inner = takeWhile (\<lambda>c. c \<noteq> CHR '']'') (tl s)
         in (inner \<noteq> [] \<and> parsenum 0 inner = Some [], length inner + 2))
      else (False, 1))"

text \<open>
  The state while one directive is read: whether the argument index is still good, whether
  the last item was an index, the notes printed so far, and the text not yet read.
\<close>

type_synonym verb_state = "bool \<times> bool \<times> string \<times> string"

definition argNumber :: "verb_state \<Rightarrow> verb_state" where
  "argNumber st =
     (case st of (good, afterIndex, out, s) \<Rightarrow>
        (case s of
           [] \<Rightarrow> (good, False, out, s)
         | c # cs \<Rightarrow>
             if c = CHR ''[''
             then (case parseArgNumber s of (ok, wid) \<Rightarrow> (False, ok, out, drop wid s))
             else (good, False, out, s)))"

definition parse_width :: "verb_state \<Rightarrow> verb_state" where
  "parse_width st =
     (case st of (good, afterIndex, out, s) \<Rightarrow>
        (case s of
           [] \<Rightarrow> (good, afterIndex, out, s)
         | c # cs \<Rightarrow>
             if c = CHR ''*'' then (good, False, out @ ''%!(BADWIDTH)'', cs)
             else (good, afterIndex, out, skip_num s)))"

definition parse_precision :: "verb_state \<Rightarrow> verb_state" where
  "parse_precision st =
     (case st of (good, afterIndex, out, s) \<Rightarrow>
        (case s of
           [] \<Rightarrow> st
         | c # cs \<Rightarrow>
             if c = CHR ''.'' then
               (case argNumber (good, afterIndex, out, cs) of (good', afterIndex', out', s') \<Rightarrow>
                  (case s' of
                     [] \<Rightarrow> (good', afterIndex', out', s')
                   | c' # cs' \<Rightarrow>
                       if c' = CHR ''*'' then (good', False, out' @ ''%!(BADPREC)'', cs')
                       else (good', afterIndex', out', skip_num s')))
             else st))"

definition trailing_argNumber :: "verb_state \<Rightarrow> verb_state" where
  "trailing_argNumber st =
     (case st of (good, afterIndex, out, s) \<Rightarrow> if afterIndex then st else argNumber st)"

definition in_range :: "nat \<Rightarrow> nat \<Rightarrow> char \<Rightarrow> bool" where
  "in_range lo hi c = (lo \<le> of_char c \<and> of_char c \<le> hi)"

text \<open>
  \<open>utf8.DecodeRuneInString\<close>, as far as printing needs it: the bytes that writing the
  decoded rune gives, and the number of bytes read. Bytes that are not valid UTF-8 decode
  to the replacement rune, one byte at a time.
\<close>

definition RuneError :: string where
  "RuneError = [CHR 0xEF, CHR 0xBF, CHR 0xBD]"

definition DecodeRuneInString :: "string \<Rightarrow> string \<times> nat" where
  "DecodeRuneInString s =
     (case s of
        [] \<Rightarrow> (RuneError, 0)
      | c # cs \<Rightarrow>
          (let n = (of_char c :: nat) in
           if n < 0x80 then ([c], 1)
           else if 0xC2 \<le> n \<and> n \<le> 0xDF then
             (case cs of
                c1 # r \<Rightarrow> if in_range 0x80 0xBF c1 then ([c, c1], 2) else (RuneError, 1)
              | _ \<Rightarrow> (RuneError, 1))
           else if 0xE0 \<le> n \<and> n \<le> 0xEF then
             (case cs of
                c1 # c2 # r \<Rightarrow>
                  if in_range (if n = 0xE0 then 0xA0 else 0x80) (if n = 0xED then 0x9F else 0xBF) c1
                     \<and> in_range 0x80 0xBF c2
                  then ([c, c1, c2], 3) else (RuneError, 1)
              | _ \<Rightarrow> (RuneError, 1))
           else if 0xF0 \<le> n \<and> n \<le> 0xF4 then
             (case cs of
                c1 # c2 # c3 # r \<Rightarrow>
                  if in_range (if n = 0xF0 then 0x90 else 0x80) (if n = 0xF4 then 0x8F else 0xBF) c1
                     \<and> in_range 0x80 0xBF c2 \<and> in_range 0x80 0xBF c3
                  then ([c, c1, c2, c3], 4) else (RuneError, 1)
              | _ \<Rightarrow> (RuneError, 1))
           else (RuneError, 1)))"

definition print_verb :: "verb_state \<Rightarrow> string \<times> string" where
  "print_verb st =
     (case st of (good, afterIndex, out, s) \<Rightarrow>
        (case s of
           [] \<Rightarrow> (out @ ''%!(NOVERB)'', [])
         | c # cs \<Rightarrow>
             (case DecodeRuneInString s of (v, sz) \<Rightarrow>
                (out @ (if v = ''%'' then ''%''
                        else if \<not> good then ''%!'' @ v @ ''(BADINDEX)''
                        else ''%!'' @ v @ ''(MISSING)''), drop sz s))))"

definition directive :: "string \<Rightarrow> string \<times> string" where
  "directive s =
     print_verb (trailing_argNumber (parse_precision (parse_width
       (argNumber (True, False, [], dropWhile is_flag s)))))"

definition remaining :: "verb_state \<Rightarrow> string" where
  "remaining st = snd (snd (snd st))"

lemma parsenum_length: "parsenum n s = Some r \<Longrightarrow> length r \<le> length s"
  by (induction n s rule: parsenum.induct) (auto split: if_splits)

lemma skip_num_length: "length (skip_num s) \<le> length s"
  by (auto simp: skip_num_def split: option.splits dest: parsenum_length)

lemma argNumber_length: "length (remaining (argNumber st)) \<le> length (remaining st)"
proof -
  obtain g a out s where st: "st = (g, a, out, s)" by (cases st) auto
  show ?thesis
    by (auto simp: st argNumber_def remaining_def split: list.splits prod.splits)
qed

lemma parse_width_length: "length (remaining (parse_width st)) \<le> length (remaining st)"
proof -
  obtain g a out s where st: "st = (g, a, out, s)" by (cases st) auto
  show ?thesis
    using skip_num_length [of s]
    by (auto simp: st parse_width_def remaining_def split: list.splits)
qed

lemma parse_precision_length: "length (remaining (parse_precision st)) \<le> length (remaining st)"
proof -
  obtain g a out s where st: "st = (g, a, out, s)" by (cases st) auto
  show ?thesis
  proof (cases s)
    case Nil
    then show ?thesis by (simp add: st parse_precision_def remaining_def)
  next
    case (Cons c cs)
    obtain g' a' out' s' where an: "argNumber (g, a, out, cs) = (g', a', out', s')"
      by (cases "argNumber (g, a, out, cs)") auto
    have "length (remaining (argNumber (g, a, out, cs))) \<le> length (remaining (g, a, out, cs))"
      by (rule argNumber_length)
    then have l: "length s' \<le> length cs" by (simp add: an remaining_def)
    show ?thesis
      using l skip_num_length [of s']
      by (auto simp: st Cons parse_precision_def remaining_def an split: list.splits)
  qed
qed

lemma trailing_argNumber_length: "length (remaining (trailing_argNumber st)) \<le> length (remaining st)"
  using argNumber_length [of st]
  by (auto simp: trailing_argNumber_def split: prod.splits)

lemma print_verb_length: "length (snd (print_verb st)) \<le> length (remaining st)"
proof -
  obtain g a out s where st: "st = (g, a, out, s)" by (cases st) auto
  show ?thesis
    by (auto simp: st print_verb_def remaining_def split: list.splits prod.splits)
qed

lemma directive_length: "length (snd (directive s)) \<le> length s"
proof -
  let ?s0 = "(True, False, [], dropWhile is_flag s) :: verb_state"
  have "length (snd (directive s)) \<le> length (remaining (trailing_argNumber (parse_precision (parse_width (argNumber ?s0)))))"
    unfolding directive_def by (rule print_verb_length)
  also have "\<dots> \<le> length (remaining (parse_precision (parse_width (argNumber ?s0))))" by (rule trailing_argNumber_length)
  also have "\<dots> \<le> length (remaining (parse_width (argNumber ?s0)))" by (rule parse_precision_length)
  also have "\<dots> \<le> length (remaining (argNumber ?s0))" by (rule parse_width_length)
  also have "\<dots> \<le> length (remaining ?s0)" by (rule argNumber_length)
  also have "\<dots> \<le> length s" by (simp add: remaining_def length_dropWhile_le)
  finally show ?thesis .
qed

text \<open>The message of \<open>fmt.Errorf(format)\<close>.\<close>

function doPrintf :: "string \<Rightarrow> string" where
  "doPrintf [] = []"
| "doPrintf (c # cs) =
     (if c = CHR ''%'' then (case directive cs of (out, r) \<Rightarrow> out @ doPrintf r)
      else c # doPrintf cs)"
  by pat_completeness auto

lemma directive_rest: "directive cs = (out, r) \<Longrightarrow> length r < Suc (length cs)"
  using directive_length [of cs] by simp

termination doPrintf
  by (relation "measure length") (auto dest: directive_rest directive_rest [OF sym])

declare doPrintf.simps [simp del]

section \<open>External collaborators\<close>

text \<open>
  A Go run-time panic (a failed type assertion), and the ways the process ends early:
  \<open>log.Fatal\<close> with its message, or a panic nobody recovers.
\<close>

datatype panic = Panic string

datatype exit = Fatal string | Crashed string

text \<open>
  The source-control host behind \<open>github.Client\<close>. Each lookup returns the message of its
  error (\<open>Inl\<close>) or its answer. \<open>'obj\<close> is the type of the response structs.
\<close>

record 'obj github =
  GetCommit :: "string \<Rightarrow> string \<Rightarrow> string \<Rightarrow> string + 'obj"
  PullRequests_Get :: "string \<Rightarrow> string \<Rightarrow> int \<Rightarrow> string + 'obj"
  IsCollaborator :: "string \<Rightarrow> string \<Rightarrow> string \<Rightarrow> string + bool"

text \<open>
  \<open>encoding/json\<close>: \<open>Marshal\<close> of a response struct, and \<open>Unmarshal\<close> into a
  \<open>map[string]interface{}\<close>; \<open>Inl\<close> carries the error's message.
\<close>

record 'obj json =
  Marshal :: "'obj \<Rightarrow> string + string"
  Unmarshal :: "string \<Rightarrow> string + (string \<times> native) list"

text \<open>
  \<open>types.NewErr\<close>, called by the programs with one argument: the error value whose
  message is what \<open>fmt.Errorf\<close> makes of that argument as a format.
\<close>

definition NewErr :: "string \<Rightarrow> val" where
  "NewErr format = VErr (doPrintf format)"

text \<open>The type assertions \<open>.(string)\<close> and \<open>.(int64)\<close> on a native value.\<close>

fun assert_string :: "native \<Rightarrow> panic + string" where
  "assert_string (NString s) = Inr s"
| "assert_string _ = Inl (Panic ''interface conversion: interface {} is not string'')"

fun assert_int64 :: "native \<Rightarrow> panic + int" where
  "assert_int64 (NInt i) = Inr i"
| "assert_int64 _ = Inl (Panic ''interface conversion: interface {} is not int64'')"

section \<open>Value Adapter fallback (yaml.go, dynamicValue)\<close>

definition dynamicValue :: "'obj json \<Rightarrow> 'obj \<Rightarrow> val" where
  "dynamicValue js i =
     (case Marshal js i of
        Inl err \<Rightarrow> NewErr err
      | Inr b \<Rightarrow>
          (case Unmarshal js b of
             Inl err \<Rightarrow> NewErr err
           | Inr s \<Rightarrow> NativeToValue (NMap s)))"

section \<open>External function bindings\<close>

record overload =
  Operator :: string
  Function :: "val list \<Rightarrow> panic + val"

text \<open>yaml.go, lines 72 to 121.\<close>

definition commit :: "'obj github \<Rightarrow> 'obj json \<Rightarrow> val list \<Rightarrow> panic + val" where
  "commit gh js values =
     (if length values \<noteq> 3 then Inr (NewErr ''invalid args'')
      else case assert_string (Value (values ! 0)) of Inl p \<Rightarrow> Inl p | Inr owner \<Rightarrow>
           case assert_string (Value (values ! 1)) of Inl p \<Rightarrow> Inl p | Inr repo \<Rightarrow>
           case assert_string (Value (values ! 2)) of Inl p \<Rightarrow> Inl p | Inr revision \<Rightarrow>
           case GetCommit gh owner repo revision of
             Inl err \<Rightarrow> Inr (NewErr err)
           | Inr c \<Rightarrow> Inr (dynamicValue js c))"

definition pr :: "'obj github \<Rightarrow> 'obj json \<Rightarrow> val list \<Rightarrow> panic + val" where
  "pr gh js values =
     (if length values \<noteq> 3 then Inr (NewErr ''invalid args'')
      else case assert_string (Value (values ! 0)) of Inl p \<Rightarrow> Inl p | Inr owner \<Rightarrow>
           case assert_string (Value (values ! 1)) of Inl p \<Rightarrow> Inl p | Inr repo \<Rightarrow>
           case assert_int64 (Value (values ! 2)) of Inl p \<Rightarrow> Inl p | Inr n \<Rightarrow>
           case PullRequests_Get gh owner repo n of
             Inl err \<Rightarrow> Inr (NewErr err)
           | Inr c \<Rightarrow> Inr (dynamicValue js c))"

definition collaborator :: "'obj github \<Rightarrow> val list \<Rightarrow> panic + val" where
  "collaborator gh values =
     (if length values \<noteq> 3 then Inr (NewErr ''invalid args'')
      else case assert_string (Value (values ! 0)) of Inl p \<Rightarrow> Inl p | Inr owner \<Rightarrow>
           case assert_string (Value (values ! 1)) of Inl p \<Rightarrow> Inl p | Inr repo \<Rightarrow>
           case assert_string (Value (values ! 2)) of Inl p \<Rightarrow> Inl p | Inr user \<Rightarrow>
           case IsCollaborator gh owner repo user of
             Inl err \<Rightarrow> Inr (NewErr err)
           | Inr c \<Rightarrow> Inr (VBool c))"

definition funcs_yaml :: "'obj github \<Rightarrow> 'obj json \<Rightarrow> overload list" where
  "funcs_yaml gh js =
     [\<lparr>Operator = ''commit'', Function = commit gh js\<rparr>,
      \<lparr>Operator = ''pr'', Function = pr gh js\<rparr>,
      \<lparr>Operator = ''collaborator'', Function = collaborator gh\<rparr>]"

text \<open>
  The single-expression program (part_000, lines 98 to 142) binds two functions; its
  \<open>commit\<close> carries the serialize and deserialize steps inline.
\<close>

definition commit_single :: "'obj github \<Rightarrow> 'obj json \<Rightarrow> val list \<Rightarrow> panic + val" where
  "commit_single gh js values =
     (if length values \<noteq> 3 then Inr (NewErr ''invalid args'')
      else case assert_string (Value (values ! 0)) of Inl p \<Rightarrow> Inl p | Inr owner \<Rightarrow>
           case assert_string (Value (values ! 1)) of Inl p \<Rightarrow> Inl p | Inr repo \<Rightarrow>
           case assert_string (Value (values ! 2)) of Inl p \<Rightarrow> Inl p | Inr revision \<Rightarrow>
           case GetCommit gh owner repo revision of
             Inl err \<Rightarrow> Inr (NewErr err)
           | Inr c \<Rightarrow>
               (case Marshal js c of
                  Inl err \<Rightarrow> Inr (NewErr err)
                | Inr b \<Rightarrow>
                    (case Unmarshal js b of
                       Inl err \<Rightarrow> Inr (NewErr err)
                     | Inr s \<Rightarrow> Inr (NativeToValue (NMap s)))))"

definition funcs_single :: "'obj github \<Rightarrow> 'obj json \<Rightarrow> overload list" where
  "funcs_single gh js =
     [\<lparr>Operator = ''commit'', Function = commit_single gh js\<rparr>,
      \<lparr>Operator = ''collaborator'', Function = collaborator gh\<rparr>]"

section \<open>Expression Environment\<close>

datatype cel_type = Dyn | TString | TInt | TBool

datatype overload_decl = NewOverload string "cel_type list" cel_type

datatype decl =
    NewIdent string cel_type
  | NewFunction string "overload_decl list"

text \<open>yaml.go, lines 127 to 148.\<close>

definition decls_yaml :: "decl list" where
  "decls_yaml =
     [NewIdent ''ce'' Dyn,
      NewFunction ''commit'' [NewOverload ''commit'' [TString, TString, TString] Dyn],
      NewFunction ''pr'' [NewOverload ''pr'' [TString, TString, TInt] Dyn],
      NewFunction ''collaborator'' [NewOverload ''collaborator'' [TString, TString, TString] TBool],
      NewIdent ''cat'' TString]"

text \<open>part_000, lines 56 to 70.\<close>

definition decls_single :: "decl list" where
  "decls_single =
     [NewIdent ''ce'' Dyn,
      NewFunction ''commit'' [NewOverload ''commit'' [TString, TString, TString] Dyn],
      NewFunction ''collaborator'' [NewOverload ''collaborator'' [TString, TString, TString] TBool]]"

text \<open>What a declaration list declares: its identifiers and its function signatures.\<close>

fun declared_idents :: "decl list \<Rightarrow> (string \<times> cel_type) list" where
  "declared_idents [] = []"
| "declared_idents (NewIdent x t # ds) = (x, t) # declared_idents ds"
| "declared_idents (NewFunction f os # ds) = declared_idents ds"

fun declared_functions :: "decl list \<Rightarrow> (string \<times> cel_type list \<times> cel_type) list" where
  "declared_functions [] = []"
| "declared_functions (NewIdent x t # ds) = declared_functions ds"
| "declared_functions (NewFunction f os # ds) =
     map (\<lambda>ov. case ov of NewOverload _ args res \<Rightarrow> (f, args, res)) os @ declared_functions ds"

section \<open>The expression engine as the programs call it\<close>

text \<open>
  The result of \<open>prg.Eval\<close>: a value with a nil error, an error, or a panic raised by a
  function binding during evaluation.
\<close>

datatype eval_result = Out val | EvalErr string | EvalPanic string

text \<open>
  The engine's entry points. \<open>Parse\<close> and \<open>Check\<close> return \<open>Inl\<close> with the message of
  \<open>iss.Err()\<close> when the issues carry an error; \<open>NewEnv\<close> and \<open>Program\<close> return
  \<open>Inl\<close> with the message of their error; the two conversions return the message of
  their error, if there is one.
\<close>

record ('env, 'ast, 'prg) cel =
  NewEnv :: "decl list \<Rightarrow> string + 'env"
  Parse :: "'env \<Rightarrow> string \<Rightarrow> string + 'ast"
  Check :: "'env \<Rightarrow> 'ast \<Rightarrow> string + 'ast"
  AstToParsedExpr :: "'ast \<Rightarrow> string option"
  AstToCheckedExpr :: "'ast \<Rightarrow> string option"
  Program :: "'env \<Rightarrow> 'ast \<Rightarrow> overload list \<Rightarrow> string + 'prg"
  Eval :: "'prg \<Rightarrow> (string \<times> native) list \<Rightarrow> eval_result"

section \<open>Template Scanner (yaml.go, main)\<close>

type_synonym document = "native \<rightharpoonup> native"

text \<open>The bytes of the string bound to \<open>cat\<close> (U+1F431 in UTF-8).\<close>

definition cat :: string where
  "cat = [CHR 0xF0, CHR 0x9F, CHR 0x90, CHR 0xB1]"

definition activation_yaml :: "(string \<times> native) list \<Rightarrow> (string \<times> native) list" where
  "activation_yaml cloudEvent = [(''ce'', NMap cloudEvent), (''cat'', NString cat)]"

text \<open>
  Lines 170 to 192: parse, check, program creation and evaluation of one inner text.
  \<open>Inr\<close> is the value \<open>out\<close>; \<open>Inl\<close> is the way the process ended.
\<close>

definition evaluate ::
  "('env, 'ast, 'prg) cel \<Rightarrow> 'env \<Rightarrow> overload list \<Rightarrow> (string \<times> native) list \<Rightarrow>
   string \<Rightarrow> exit + val" where
  "evaluate L e funcs cloudEvent s =
     (case Parse L e s of
        Inl iss \<Rightarrow> Inl (Fatal iss)
      | Inr p \<Rightarrow>
          (case Check L e p of
             Inl iss \<Rightarrow> Inl (Fatal iss)
           | Inr c \<Rightarrow>
               (case Program L e c funcs of
                  Inl err \<Rightarrow> Inl (Fatal (''program creation error: '' @ err))
                | Inr prg \<Rightarrow>
                    (case Eval L prg (activation_yaml cloudEvent) of
                       EvalPanic m \<Rightarrow> Inl (Crashed m)
                     | EvalErr err \<Rightarrow> Inl (Fatal (''runtime error: '' @ err))
                     | Out out \<Rightarrow> Inr out))))"

text \<open>
  One iteration of the loop of lines 160 to 195, for the key \<open>k\<close> of the document \<open>d\<close>:
  \<open>Inr\<close> is the document after the iteration, \<open>Inl\<close> the way the process ended.
\<close>

definition scan_key ::
  "('env, 'ast, 'prg) cel \<Rightarrow> 'env \<Rightarrow> overload list \<Rightarrow> (string \<times> native) list \<Rightarrow>
   document \<Rightarrow> native \<Rightarrow> exit + document" where
  "scan_key L e funcs cloudEvent d k =
     (case d k of
        Some (NString s) \<Rightarrow>
          if \<not> regexp_Match s then Inr d
          else
            (case evaluate L e funcs cloudEvent (inner_text s) of
               Inl x \<Rightarrow> Inl x
             | Inr out \<Rightarrow> Inr (d(k \<mapsto> Value out)))
      | _ \<Rightarrow> Inr d)"

text \<open>
  The loop over the keys, in the order \<open>ks\<close> in which \<open>range\<close> yields them. When the
  process ends early, the result also holds the document as it stands in memory then.
\<close>

fun scan ::
  "('env, 'ast, 'prg) cel \<Rightarrow> 'env \<Rightarrow> overload list \<Rightarrow> (string \<times> native) list \<Rightarrow>
   native list \<Rightarrow> document \<Rightarrow> (exit \<times> document) + document" where
  "scan L e funcs cloudEvent [] d = Inr d"
| "scan L e funcs cloudEvent (k # ks) d =
     (case scan_key L e funcs cloudEvent d k of
        Inl x \<Rightarrow> Inl (x, d)
      | Inr d' \<Rightarrow> scan L e funcs cloudEvent ks d')"

text \<open>
  The program of yaml.go, without its logging of the input document.
  \<open>yaml_Unmarshal\<close> decodes the template document and \<open>range_keys\<close> is the order in
  which \<open>range\<close> visits the keys of a map. The result is the document logged as
  \<open>out:\<close>, or the way the process ended.
\<close>

definition main_yaml ::
  "'obj json \<Rightarrow> (string \<Rightarrow> string + document) \<Rightarrow> (document \<Rightarrow> native list) \<Rightarrow>
   'obj github \<Rightarrow> ('env, 'ast, 'prg) cel \<Rightarrow> string \<Rightarrow> string \<Rightarrow> exit + document" where
  "main_yaml js yaml_Unmarshal range_keys gh L expr ceJSON =
     (case Unmarshal js ceJSON of
        Inl err \<Rightarrow> Inl (Fatal (''json parse error: '' @ err))
      | Inr cloudEvent \<Rightarrow>
          (case NewEnv L decls_yaml of
             Inl err \<Rightarrow> Inl (Fatal (''environment creation error: '' @ err))
           | Inr e \<Rightarrow>
               (case yaml_Unmarshal expr of
                  Inl err \<Rightarrow> Inl (Fatal err)
                | Inr d \<Rightarrow>
                    (case scan L e (funcs_yaml gh js) cloudEvent (range_keys d) d of
                       Inl (x, mem) \<Rightarrow> Inl x
                     | Inr d' \<Rightarrow> Inr d'))))"

section \<open>Single-expression program (part_000, main)\<close>

text \<open>The input bindings of part_000, lines 155 to 158.\<close>

definition activation_single :: "(string \<times> native) list \<Rightarrow> (string \<times> native) list" where
  "activation_single cloudEvent = [(''ce'', NMap cloudEvent)]"

text \<open>
  The program of part_000, without its printing of the intermediate forms. The result is
  the value printed as \<open>out:\<close>, or the way the process ended.
\<close>

definition main_single ::
  "'obj json \<Rightarrow> 'obj github \<Rightarrow> ('env, 'ast, 'prg) cel \<Rightarrow> string \<Rightarrow> string \<Rightarrow> exit + val" where
  "main_single js gh L expr ceJSON =
     (case NewEnv L decls_single of
        Inl err \<Rightarrow> Inl (Fatal (''environment creation error: '' @ err))
      | Inr e \<Rightarrow>
     (case Parse L e expr of
        Inl iss \<Rightarrow> Inl (Fatal iss)
      | Inr p \<Rightarrow>
     (case AstToParsedExpr L p of
        Some err \<Rightarrow> Inl (Fatal err)
      | None \<Rightarrow>
     (case Check L e p of
        Inl iss \<Rightarrow> Inl (Fatal iss)
      | Inr c \<Rightarrow>
     (case AstToCheckedExpr L c of
        Some err \<Rightarrow> Inl (Fatal err)
      | None \<Rightarrow>
     (case Program L e c (funcs_single gh js) of
        Inl err \<Rightarrow> Inl (Fatal (''program creation error: '' @ err))
      | Inr prg \<Rightarrow>
     (case Unmarshal js ceJSON of
        Inl err \<Rightarrow> Inl (Fatal (''json parse error: '' @ err))
      | Inr cloudEvent \<Rightarrow>
     (case Eval L prg (activation_single cloudEvent) of
        EvalPanic m \<Rightarrow> Inl (Crashed m)
      | EvalErr err \<Rightarrow> Inl (Fatal (''runtime error: '' @ err))
      | Out out \<Rightarrow> Inr out))))))))"

section \<open>A model of the expression engine\<close>

text \<open>
  Modelled from the spec: the expression engine (sections 4.3 and 4.4: environment
  construction, parse, check, program creation, evaluation). The engine is a library the
  programs call; its code is not in the sources. The model covers the fragment of the
  expression language that the spec's scenarios use: literals, identifiers, field
  selection, calls of declared functions on literals and field paths, and one equality.
  Text outside the fragment is reported as a syntax error.
\<close>

datatype const_lit = CBool bool | CInt int | CString string

datatype expr =
    Lit const_lit
  | Ident string
  | Select expr string
  | Call string "expr list"
  | Eq expr expr

datatype token =
    TokIdent string
  | TokString string
  | TokInt int
  | TokDot
  | TokComma
  | TokLParen
  | TokRParen
  | TokEqEq

definition is_space :: "char \<Rightarrow> bool" where
  "is_space c = (c \<in> set [CHR '' '', CHR 0x09, CHR 0x0A, CHR 0x0C, CHR 0x0D])"

definition is_letter :: "char \<Rightarrow> bool" where
  "is_letter c =
     ((97 \<le> (of_char c :: nat) \<and> (of_char c :: nat) \<le> 122)
      \<or> (65 \<le> (of_char c :: nat) \<and> (of_char c :: nat) \<le> 90)
      \<or> c = CHR ''_'')"

definition is_ident_char :: "char \<Rightarrow> bool" where
  "is_ident_char c = (is_letter c \<or> is_digit c)"

definition digits_value :: "string \<Rightarrow> int" where
  "digits_value ds = foldl (\<lambda>n c. 10 * n + (int (of_char c) - 48)) 0 ds"

definition string_char :: "char \<Rightarrow> bool" where
  "string_char c = (c \<noteq> CHR 0x22 \<and> c \<noteq> CHR 0x5C \<and> c \<noteq> CHR 0x0A \<and> c \<noteq> CHR 0x0D)"

text \<open>
  Modelled from the spec: the lexer of the engine's parser (section 4.4, Parse), for the
  tokens of the fragment. A string literal has no escape sequences.
\<close>

function tokenize :: "string \<Rightarrow> token list option" where
  "tokenize [] = Some []"
| "tokenize (c # cs) =
     (if is_space c then tokenize cs
      else if c = CHR ''.'' then map_option (Cons TokDot) (tokenize cs)
      else if c = CHR '','' then map_option (Cons TokComma) (tokenize cs)
      else if c = CHR ''('' then map_option (Cons TokLParen) (tokenize cs)
      else if c = CHR '')'' then map_option (Cons TokRParen) (tokenize cs)
      else if c = CHR ''='' then
        (case cs of
           [] \<Rightarrow> None
         | c' # cs' \<Rightarrow> if c' = CHR ''='' then map_option (Cons TokEqEq) (tokenize cs') else None)
      else if c = CHR 0x22 then
        (case dropWhile string_char cs of
           [] \<Rightarrow> None
         | q # rest \<Rightarrow>
             if q = CHR 0x22
             then map_option (Cons (TokString (takeWhile string_char cs))) (tokenize rest)
             else None)
      else if is_digit c then
        map_option (Cons (TokInt (digits_value (c # takeWhile is_digit cs))))
          (tokenize (dropWhile is_digit cs))
      else if is_letter c then
        map_option (Cons (TokIdent (c # takeWhile is_ident_char cs)))
          (tokenize (dropWhile is_ident_char cs))
      else None)"
  by pat_completeness auto

lemma dropWhile_Cons_length: "dropWhile P xs = y # ys \<Longrightarrow> length ys < length xs"
  by (metis length_dropWhile_le length_Cons Suc_le_lessD)

termination tokenize
  by (relation "measure length")
    (auto simp: le_imp_less_Suc length_dropWhile_le dest: dropWhile_Cons_length)

declare tokenize.simps [simp del]

text \<open>
  Modelled from the spec: the words the expression language reserves; none of them is an
  identifier.
\<close>

definition reserved :: "string list" where
  "reserved =
     [''as'', ''break'', ''const'', ''continue'', ''else'', ''for'', ''function'', ''if'',
      ''import'', ''in'', ''let'', ''loop'', ''package'', ''namespace'', ''null'', ''return'',
      ''var'', ''void'', ''while'']"

text \<open>
  Modelled from the spec: the parser (section 4.4, Parse), by recursive descent over the
  tokens: field selections, atoms, argument lists, operands, and an expression.
\<close>

fun parse_selects :: "expr \<Rightarrow> token list \<Rightarrow> expr \<times> token list" where
  "parse_selects e (TokDot # TokIdent f # ts) = parse_selects (Select e f) ts"
| "parse_selects e ts = (e, ts)"

fun parse_atom :: "token list \<Rightarrow> (expr \<times> token list) option" where
  "parse_atom (TokString s # ts) = Some (Lit (CString s), ts)"
| "parse_atom (TokInt i # ts) = Some (Lit (CInt i), ts)"
| "parse_atom (TokIdent x # ts) =
     (if x = ''true'' then Some (Lit (CBool True), ts)
      else if x = ''false'' then Some (Lit (CBool False), ts)
      else if x \<in> set reserved then None
      else Some (parse_selects (Ident x) ts))"
| "parse_atom _ = None"

lemma parse_selects_length: "parse_selects e ts = (e', ts') \<Longrightarrow> length ts' \<le> length ts"
  by (induction e ts arbitrary: e' ts' rule: parse_selects.induct) fastforce+

lemma parse_atom_length: "parse_atom ts = Some (e, ts') \<Longrightarrow> length ts' < length ts"
  by (cases ts rule: parse_atom.cases)
    (auto split: if_splits dest!: parse_selects_length)

function parse_arg_list :: "token list \<Rightarrow> (expr list \<times> token list) option" where
  "parse_arg_list ts =
     (case parse_atom ts of
        None \<Rightarrow> None
      | Some (a, TokRParen # ts') \<Rightarrow> Some ([a], ts')
      | Some (a, TokComma # ts') \<Rightarrow>
          (case parse_arg_list ts' of
             None \<Rightarrow> None
           | Some (as, ts'') \<Rightarrow> Some (a # as, ts''))
      | Some (a, _) \<Rightarrow> None)"
  by pat_completeness auto

termination parse_arg_list
  by (relation "measure length") (auto dest: parse_atom_length)

declare parse_arg_list.simps [simp del]

fun parse_operand :: "token list \<Rightarrow> (expr \<times> token list) option" where
  "parse_operand (TokIdent f # TokLParen # TokRParen # ts) =
     (if f \<in> set reserved then None else Some (parse_selects (Call f []) ts))"
| "parse_operand (TokIdent f # TokLParen # ts) =
     (if f \<in> set reserved then None
      else case parse_arg_list ts of
             None \<Rightarrow> None
           | Some (as, ts') \<Rightarrow> Some (parse_selects (Call f as) ts'))"
| "parse_operand ts = parse_atom ts"

definition parse_expr :: "token list \<Rightarrow> expr option" where
  "parse_expr ts =
     (case parse_operand ts of
        None \<Rightarrow> None
      | Some (a, []) \<Rightarrow> Some a
      | Some (a, TokEqEq # ts') \<Rightarrow>
          (case parse_operand ts' of
             Some (b, []) \<Rightarrow> Some (Eq a b)
           | _ \<Rightarrow> None)
      | Some (a, _) \<Rightarrow> None)"

text \<open>
  Modelled from the spec: the abstract syntax form that Parse returns and Check marks as
  checked, and the executable program object of section 4.4.
\<close>

record ast =
  Expr :: expr
  IsChecked :: bool

record program =
  Body :: expr
  Bindings :: "overload list"

text \<open>
  Modelled from the spec: environment construction (section 4.3), which fails only when
  the declarations are inconsistent: an identifier or a function declared twice.
\<close>

definition cel_NewEnv :: "decl list \<Rightarrow> string + decl list" where
  "cel_NewEnv ds =
     (if distinct (map fst (declared_idents ds)) \<and> distinct (map fst (declared_functions ds))
      then Inr ds else Inl ''overlapping declaration'')"

text \<open>
  Modelled from the spec: the Parse state of section 4.4; a failure is a syntax error.
\<close>

definition cel_Parse :: "decl list \<Rightarrow> string \<Rightarrow> string + ast" where
  "cel_Parse e text =
     (case tokenize text of
        None \<Rightarrow> Inl ''Syntax error''
      | Some ts \<Rightarrow>
          (case parse_expr ts of
             None \<Rightarrow> Inl ''Syntax error''
           | Some x \<Rightarrow> Inr \<lparr>Expr = x, IsChecked = False\<rparr>))"

text \<open>
  Modelled from the spec: the Check state of section 4.4: every identifier and function
  reference resolves, and argument types match the declared signatures, where the dynamic
  type matches every type.
\<close>

fun const_type :: "const_lit \<Rightarrow> cel_type" where
  "const_type (CBool b) = TBool"
| "const_type (CInt i) = TInt"
| "const_type (CString s) = TString"

definition assignable :: "cel_type \<Rightarrow> cel_type \<Rightarrow> bool" where
  "assignable p a = (p = Dyn \<or> a = Dyn \<or> p = a)"

definition resolve_call ::
  "decl list \<Rightarrow> string \<Rightarrow> cel_type list \<Rightarrow> string + cel_type" where
  "resolve_call ds f ts =
     (case filter (\<lambda>(g, ps, r). g = f) (declared_functions ds) of
        [] \<Rightarrow> Inl (''undeclared reference to '' @ f)
      | cands \<Rightarrow>
          (case find (\<lambda>(g, ps, r). list_all2 assignable ps ts) cands of
             None \<Rightarrow> Inl (''found no matching overload for '' @ f)
           | Some (g, ps, r) \<Rightarrow> Inr r))"

fun type_of :: "decl list \<Rightarrow> expr \<Rightarrow> string + cel_type"
  and types_of :: "decl list \<Rightarrow> expr list \<Rightarrow> string + cel_type list" where
  "type_of ds (Lit c) = Inr (const_type c)"
| "type_of ds (Ident x) =
     (case map_of (declared_idents ds) x of
        None \<Rightarrow> Inl (''undeclared reference to '' @ x)
      | Some t \<Rightarrow> Inr t)"
| "type_of ds (Select a f) =
     (case type_of ds a of
        Inl m \<Rightarrow> Inl m
      | Inr t \<Rightarrow> if t = Dyn then Inr Dyn else Inl ''type does not support field selection'')"
| "type_of ds (Call f as) =
     (case types_of ds as of
        Inl m \<Rightarrow> Inl m
      | Inr ts \<Rightarrow> resolve_call ds f ts)"
| "type_of ds (Eq a b) =
     (case type_of ds a of
        Inl m \<Rightarrow> Inl m
      | Inr ta \<Rightarrow>
          (case type_of ds b of
             Inl m \<Rightarrow> Inl m
           | Inr tb \<Rightarrow>
               if assignable ta tb then Inr TBool
               else Inl ''found no matching overload for _==_''))"
| "types_of ds [] = Inr []"
| "types_of ds (a # as) =
     (case type_of ds a of
        Inl m \<Rightarrow> Inl m
      | Inr t \<Rightarrow>
          (case types_of ds as of
             Inl m \<Rightarrow> Inl m
           | Inr ts \<Rightarrow> Inr (t # ts)))"

definition cel_Check :: "decl list \<Rightarrow> ast \<Rightarrow> string + ast" where
  "cel_Check e a =
     (case type_of e (Expr a) of
        Inl m \<Rightarrow> Inl m
      | Inr t \<Rightarrow> Inr (a\<lparr>IsChecked := True\<rparr>))"

text \<open>
  Modelled from the spec: the conversions of a syntax form for printing; the second one
  needs a checked form.
\<close>

definition cel_AstToParsedExpr :: "ast \<Rightarrow> string option" where
  "cel_AstToParsedExpr a = None"

definition cel_AstToCheckedExpr :: "ast \<Rightarrow> string option" where
  "cel_AstToCheckedExpr a = (if IsChecked a then None else Some ''cannot convert unchecked ast'')"

text \<open>
  Modelled from the spec: the Compile state of section 4.4, which fails when a function the
  expression calls has no binding.
\<close>

fun called :: "expr \<Rightarrow> string list" where
  "called (Lit c) = []"
| "called (Ident x) = []"
| "called (Select a f) = called a"
| "called (Call f as) = f # concat (map called as)"
| "called (Eq a b) = called a @ called b"

definition cel_Program :: "decl list \<Rightarrow> ast \<Rightarrow> overload list \<Rightarrow> string + program" where
  "cel_Program e a funcs =
     (if set (called (Expr a)) \<subseteq> set (map Operator funcs)
      then Inr \<lparr>Body = Expr a, Bindings = funcs\<rparr>
      else Inl ''no binding for a declared function'')"

text \<open>
  Modelled from the spec: the Evaluate state of section 4.4. A missing field and a failed
  function call give an error value; an error value among the arguments of a call is the
  result of the call; the bindings are called with the evaluated arguments. A final error
  value is returned as the runtime error.
\<close>

fun const_val :: "const_lit \<Rightarrow> val" where
  "const_val (CBool b) = VBool b"
| "const_val (CInt i) = VInt i"
| "const_val (CString s) = VString s"

fun select_field :: "val \<Rightarrow> string \<Rightarrow> val" where
  "select_field (VMap m) f =
     (case map_of m f of None \<Rightarrow> VErr (''no such key: '' @ f) | Some v \<Rightarrow> v)"
| "select_field (VErr m) f = VErr m"
| "select_field _ f = VErr ''no such overload''"

fun cel_equal :: "val \<Rightarrow> val \<Rightarrow> val" where
  "cel_equal (VErr m) _ = VErr m"
| "cel_equal _ (VErr m) = VErr m"
| "cel_equal VNull VNull = VBool True"
| "cel_equal (VBool a) (VBool b) = VBool (a = b)"
| "cel_equal (VInt a) (VInt b) = VBool (a = b)"
| "cel_equal (VString a) (VString b) = VBool (a = b)"
| "cel_equal _ _ = VErr ''no such overload''"

fun is_err :: "val \<Rightarrow> bool" where
  "is_err (VErr m) = True"
| "is_err _ = False"

definition call_binding :: "overload list \<Rightarrow> string \<Rightarrow> val list \<Rightarrow> panic + val" where
  "call_binding funcs f vs =
     (case find is_err vs of
        Some v \<Rightarrow> Inr v
      | None \<Rightarrow>
          (case find (\<lambda>ov. Operator ov = f) funcs of
             None \<Rightarrow> Inr (VErr ''no such overload'')
           | Some ov \<Rightarrow> Function ov vs))"

fun eval :: "overload list \<Rightarrow> (string \<times> native) list \<Rightarrow> expr \<Rightarrow> panic + val"
  and eval_args :: "overload list \<Rightarrow> (string \<times> native) list \<Rightarrow> expr list \<Rightarrow> panic + val list"
  where
  "eval funcs act (Lit c) = Inr (const_val c)"
| "eval funcs act (Ident x) =
     (case map_of act x of
        None \<Rightarrow> Inr (VErr (''no such attribute: '' @ x))
      | Some n \<Rightarrow> Inr (NativeToValue n))"
| "eval funcs act (Select a f) =
     (case eval funcs act a of
        Inl p \<Rightarrow> Inl p
      | Inr v \<Rightarrow> Inr (select_field v f))"
| "eval funcs act (Call f as) =
     (case eval_args funcs act as of
        Inl p \<Rightarrow> Inl p
      | Inr vs \<Rightarrow> call_binding funcs f vs)"
| "eval funcs act (Eq a b) =
     (case eval funcs act a of
        Inl p \<Rightarrow> Inl p
      | Inr va \<Rightarrow>
          (case eval funcs act b of
             Inl p \<Rightarrow> Inl p
           | Inr vb \<Rightarrow> Inr (cel_equal va vb)))"
| "eval_args funcs act [] = Inr []"
| "eval_args funcs act (a # as) =
     (case eval funcs act a of
        Inl p \<Rightarrow> Inl p
      | Inr v \<Rightarrow>
          (case eval_args funcs act as of
             Inl p \<Rightarrow> Inl p
           | Inr vs \<Rightarrow> Inr (v # vs)))"

definition cel_Eval :: "program \<Rightarrow> (string \<times> native) list \<Rightarrow> eval_result" where
  "cel_Eval prg act =
     (case eval (Bindings prg) act (Body prg) of
        Inl (Panic m) \<Rightarrow> EvalPanic m
      | Inr (VErr m) \<Rightarrow> EvalErr m
      | Inr v \<Rightarrow> Out v)"

text \<open>
  Modelled from the spec: the engine, as one value of the interface the programs call.
\<close>

definition cel_go :: "(decl list, ast, program) cel" where
  "cel_go =
     \<lparr>NewEnv = cel_NewEnv, Parse = cel_Parse, Check = cel_Check,
      AstToParsedExpr = cel_AstToParsedExpr, AstToCheckedExpr = cel_AstToCheckedExpr,
      Program = cel_Program, Eval = cel_Eval\<rparr>"


section \<open>Default flag values and stand-ins for the collaborators\<close>

text \<open>The default value of the flag \<open>-e\<close> in both programs.\<close>

definition defaultExpr :: string where
  "defaultExpr = ''ce.type == '' @ [CHR 0x22] @ ''com.example.someevent'' @ [CHR 0x22]"

text \<open>
  The expression of the spec's fourth scenario, a call of \<open>commit\<close> on three string
  literals, for a given revision.
\<close>

definition commit_expr :: "string \<Rightarrow> string" where
  "commit_expr revision =
     ''commit('' @ [CHR 0x22] @ ''o'' @ [CHR 0x22] @ '', '' @ [CHR 0x22] @ ''r'' @ [CHR 0x22]
       @ '', '' @ [CHR 0x22] @ revision @ [CHR 0x22] @ '')''"

text \<open>
  Stand-ins for the collaborators, for concrete runs. A response struct is stood for by
  a string. The host knows no commit \<open>bad-sha\<close>, no pull request outside 1 to 99 and no
  repository \<open>gone\<close>. The encoder rejects the struct \<open>cyclic\<close>; the decoder knows two
  event documents and one commit.
\<close>

definition stub_github :: "string github" where
  "stub_github =
     \<lparr>GetCommit = (\<lambda>owner repo revision.
        if revision = ''bad-sha'' then Inl ''404 Not Found'' else Inr revision),
      PullRequests_Get = (\<lambda>owner repo n.
        if 1 \<le> n \<and> n < 100 then Inr ''pull'' else Inl ''404 Not Found''),
      IsCollaborator = (\<lambda>owner repo user.
        if repo = ''gone'' then Inl ''404 Not Found'' else Inr (user = ''octocat''))\<rparr>"

text \<open>
  A host whose errors name the request, as the client library's errors do: the path is
  URL-escaped, so a blank in an argument comes back as \<open>%20\<close>.
\<close>

definition escaping_github :: "string github" where
  "escaping_github =
     \<lparr>GetCommit = (\<lambda>owner repo revision.
        if revision = ''a b''
        then Inl ''GET https://api.github.com/repos/o/r/commits/a%20b: 404 Not Found []''
        else Inr revision),
      PullRequests_Get = (\<lambda>owner repo n.
        if owner = ''my org''
        then Inl ''GET https://api.github.com/repos/my%20org/r/pulls/7: 404 Not Found []''
        else Inr ''pull''),
      IsCollaborator = (\<lambda>owner repo user.
        if user = ''a b''
        then Inl ''GET https://api.github.com/repos/o/r/collaborators/a%20b: 404 Not Found []''
        else Inr True)\<rparr>"

text \<open>The event documents of the end-to-end scenarios, as JSON text.\<close>

definition someevent_json :: string where
  "someevent_json =
     ''{'' @ [CHR 0x22] @ ''type'' @ [CHR 0x22] @ '':'' @ [CHR 0x22] @ ''com.example.someevent''
       @ [CHR 0x22] @ ''}''"

definition x_json :: string where
  "x_json = ''{'' @ [CHR 0x22] @ ''type'' @ [CHR 0x22] @ '':'' @ [CHR 0x22] @ ''x'' @ [CHR 0x22] @ ''}''"

definition stub_json :: "string json" where
  "stub_json =
     \<lparr>Marshal = (\<lambda>c. if c = ''cyclic'' then Inl ''json: unsupported value'' else Inr c),
      Unmarshal = (\<lambda>b.
        if b = someevent_json then Inr [(''type'', NString ''com.example.someevent'')]
        else if b = x_json then Inr [(''type'', NString ''x'')]
        else if b = ''master'' then Inr [(''sha'', NString ''c0ffee'')]
        else Inl ''unexpected end of JSON input'')\<rparr>"

text \<open>
  Two template documents, their YAML text, a decoder that knows them, and the order in
  which their keys are visited.
\<close>

definition sample_template :: document where
  "sample_template =
     [NString ''a'' \<mapsto> NString ''$(true)'', NString ''b'' \<mapsto> NString ''hello'']"

definition broken_template :: document where
  "broken_template =
     [NString ''a'' \<mapsto> NString ''$(true)'', NString ''b'' \<mapsto> NString ''$(dog)'']"

definition sample_yaml :: string where
  "sample_yaml = ''a: $(true)'' @ [CHR 0x0A] @ ''b: hello''"

definition broken_yaml :: string where
  "broken_yaml = ''a: $(true)'' @ [CHR 0x0A] @ ''b: $(dog)''"

definition stub_yaml :: "string \<Rightarrow> string + document" where
  "stub_yaml t =
     (if t = sample_yaml then Inr sample_template
      else if t = broken_yaml then Inr broken_template
      else Inl ''yaml: unmarshal errors'')"

definition sample_keys :: "native list" where
  "sample_keys = [NString ''a'', NString ''b'']"

text \<open>The template of the spec's third scenario.\<close>

definition cat_template :: document where
  "cat_template = [NString ''k'' \<mapsto> NString ''$(cat)'']"

text \<open>A template whose value matches the pattern away from its start.\<close>

definition padded_template :: document where
  "padded_template = [NString ''a'' \<mapsto> NString ''x$(true)'']"

section \<open>Notions used by the properties\<close>

text \<open>
  The template document as it stands in memory when the loop has ended, either way.
\<close>

definition memory :: "(exit \<times> document) + document \<Rightarrow> document" where
  "memory r = (case r of Inl (x, m) \<Rightarrow> m | Inr d \<Rightarrow> d)"

text \<open>
  The declarations that section 4.3 of the spec requires of the Expression Environment,
  whatever their names: two identifiers, one of dynamic type and one of type string, and
  three function signatures.
\<close>

definition required_declarations :: "decl list \<Rightarrow> bool" where
  "required_declarations ds =
     (length (declared_idents ds) = 2 \<and>
      set (map snd (declared_idents ds)) = {Dyn, TString} \<and>
      length (declared_functions ds) = 3 \<and>
      set (map snd (declared_functions ds)) =
        {([TString, TString, TString], Dyn), ([TString, TString, TInt], Dyn),
         ([TString, TString, TString], TBool)})"

text \<open>
  Modelled from the spec: the directly-convertible native values of section 8 (strings,
  integers, booleans, and mappings of such values).
\<close>

fun directly_convertible :: "native \<Rightarrow> bool" where
  "directly_convertible (NString s) = True"
| "directly_convertible (NInt i) = True"
| "directly_convertible (NBool b) = True"
| "directly_convertible (NMap kvs) = list_all (\<lambda>(k, v). directly_convertible v) kvs"
| "directly_convertible _ = False"

section \<open>Properties of the helpers\<close>

lemma doPrintf_plain: "CHR ''%'' \<notin> set s \<Longrightarrow> doPrintf s = s"
  by (induction s) (auto simp: doPrintf.simps)

lemma NewErr_plain: "CHR ''%'' \<notin> set msg \<Longrightarrow> NewErr msg = VErr msg"
  by (simp add: NewErr_def doPrintf_plain)

lemma NewErr_invalid_args: "NewErr ''invalid args'' = VErr ''invalid args''"
  by (simp add: NewErr_plain)

lemma NewErr_error_value: "\<exists>m. NewErr msg = VErr m"
  by (simp add: NewErr_def)

lemma match_close_iff:
  "match_close s \<longleftrightarrow> (\<exists>mid post. s = mid @ '')'' @ post \<and> CHR 0x0A \<notin> set mid)"
proof (induction s)
  case Nil
  then show ?case by simp
next
  case (Cons c cs)
  show ?case
  proof
    assume m: "match_close (c # cs)"
    show "\<exists>mid post. c # cs = mid @ '')'' @ post \<and> CHR 0x0A \<notin> set mid"
    proof (cases "c = CHR '')''")
      case True
      then have "c # cs = [] @ '')'' @ cs" by simp
      then show ?thesis by (metis empty_iff list.set(1))
    next
      case False
      with m have nl: "c \<noteq> CHR 0x0A" and "match_close cs" by auto
      with Cons.IH obtain mid post where "cs = mid @ '')'' @ post" "CHR 0x0A \<notin> set mid"
        by blast
      with nl have "c # cs = (c # mid) @ '')'' @ post \<and> CHR 0x0A \<notin> set (c # mid)" by simp
      then show ?thesis by blast
    qed
  next
    assume "\<exists>mid post. c # cs = mid @ '')'' @ post \<and> CHR 0x0A \<notin> set mid"
    then obtain mid post where e: "c # cs = mid @ '')'' @ post" and n: "CHR 0x0A \<notin> set mid"
      by blast
    show "match_close (c # cs)"
    proof (cases mid)
      case Nil
      with e show ?thesis by simp
    next
      case (Cons m ms)
      with e n have "c = m" "cs = ms @ '')'' @ post" "CHR 0x0A \<notin> set ms" "c \<noteq> CHR 0x0A"
        by auto
      with Cons.IH show ?thesis by auto
    qed
  qed
qed

lemma regexp_Match_iff:
  "regexp_Match s \<longleftrightarrow>
     (\<exists>pre mid post. s = pre @ ''$('' @ mid @ '')'' @ post \<and> CHR 0x0A \<notin> set mid)"
proof (induction s)
  case Nil
  then show ?case by simp
next
  case (Cons c cs)
  show ?case
  proof
    assume m: "regexp_Match (c # cs)"
    show "\<exists>pre mid post. c # cs = pre @ ''$('' @ mid @ '')'' @ post \<and> CHR 0x0A \<notin> set mid"
    proof (cases "regexp_Match cs")
      case True
      with Cons.IH have "\<exists>pre mid post. cs = pre @ ''$('' @ mid @ '')'' @ post \<and> CHR 0x0A \<notin> set mid"
        by (simp only:)
      then obtain pre mid post
        where "cs = pre @ ''$('' @ mid @ '')'' @ post" and n: "CHR 0x0A \<notin> set mid"
        by (elim exE conjE)
      then have "c # cs = (c # pre) @ ''$('' @ mid @ '')'' @ post" by simp
      with n show ?thesis by (intro exI[of _ "c # pre"] exI[of _ mid] exI[of _ post] conjI)
    next
      case False
      with m have c: "c = CHR ''$''"
        and t: "case cs of [] \<Rightarrow> False | c' # cs' \<Rightarrow> c' = CHR ''('' \<and> match_close cs'"
        by simp_all
      from t obtain cs' where cs: "cs = CHR ''('' # cs'" and mc: "match_close cs'"
        by (cases cs) simp_all
      from mc have "\<exists>mid post. cs' = mid @ '')'' @ post \<and> CHR 0x0A \<notin> set mid"
        by (simp only: match_close_iff)
      then obtain mid post where "cs' = mid @ '')'' @ post" and n: "CHR 0x0A \<notin> set mid"
        by (elim exE conjE)
      with c cs have "c # cs = [] @ ''$('' @ mid @ '')'' @ post" by simp
      with n show ?thesis by (intro exI[of _ "[]"] exI[of _ mid] exI[of _ post] conjI)
    qed
  next
    assume "\<exists>pre mid post. c # cs = pre @ ''$('' @ mid @ '')'' @ post \<and> CHR 0x0A \<notin> set mid"
    then obtain pre mid post
      where e: "c # cs = pre @ ''$('' @ mid @ '')'' @ post" and n: "CHR 0x0A \<notin> set mid"
      by (elim exE conjE)
    show "regexp_Match (c # cs)"
    proof (cases pre)
      case Nil
      with e have c: "c = CHR ''$''" and cs: "cs = CHR ''('' # mid @ '')'' @ post" by simp_all
      from n have "\<exists>m p. mid @ '')'' @ post = m @ '')'' @ p \<and> CHR 0x0A \<notin> set m"
        by (intro exI[of _ mid] exI[of _ post] conjI refl)
      then have "match_close (mid @ '')'' @ post)" by (simp only: match_close_iff)
      with c cs show ?thesis by simp
    next
      case (Cons a pre')
      with e have "cs = pre' @ ''$('' @ mid @ '')'' @ post" by simp
      with n have "\<exists>pre mid post. cs = pre @ ''$('' @ mid @ '')'' @ post \<and> CHR 0x0A \<notin> set mid"
        by (intro exI[of _ pre'] exI[of _ mid] exI[of _ post] conjI)
      with Cons.IH have "regexp_Match cs" by (simp only:)
      then show ?thesis by simp
    qed
  qed
qed

lemma HasPrefix_iff: "HasPrefix s p \<longleftrightarrow> prefix p s"
proof
  assume "HasPrefix s p"
  then have "take (length p) s = p" by (simp add: HasPrefix_def)
  then show "prefix p s" by (metis take_is_prefix)
next
  assume "prefix p s"
  then obtain t where "s = p @ t" by (auto simp: prefix_def)
  then show "HasPrefix s p" by (simp add: HasPrefix_def)
qed

lemma HasSuffix_iff: "HasSuffix s p \<longleftrightarrow> suffix p s"
proof
  assume "HasSuffix s p"
  then have "drop (length s - length p) s = p" by (simp add: HasSuffix_def)
  then show "suffix p s" by (metis suffix_drop)
next
  assume "suffix p s"
  then obtain u where "s = u @ p" by (auto simp: suffix_def)
  then show "HasSuffix s p" by (simp add: HasSuffix_def)
qed

lemma TrimPrefix_append: "TrimPrefix (p @ t) p = t"
  by (simp add: TrimPrefix_def HasPrefix_def)

lemma TrimPrefix_other: "\<not> prefix p s \<Longrightarrow> TrimPrefix s p = s"
  by (simp add: TrimPrefix_def HasPrefix_iff)

lemma TrimSuffix_append: "TrimSuffix (u @ p) p = u"
  by (simp add: TrimSuffix_def HasSuffix_def)

lemma TrimSuffix_other: "\<not> suffix p s \<Longrightarrow> TrimSuffix s p = s"
  by (simp add: TrimSuffix_def HasSuffix_iff)

lemma inner_text_both: "inner_text (''$('' @ t @ '')'') = t"
proof -
  have "TrimPrefix (''$('' @ t @ '')'') ''$('' = t @ '')''" by (rule TrimPrefix_append)
  moreover have "TrimSuffix (t @ '')'') '')'' = t" by (rule TrimSuffix_append)
  ultimately show ?thesis by (simp only: inner_text_def)
qed

lemma inner_text_leading: "\<not> suffix '')'' t \<Longrightarrow> inner_text (''$('' @ t) = t"
proof -
  assume n: "\<not> suffix '')'' t"
  have "TrimPrefix (''$('' @ t) ''$('' = t" by (rule TrimPrefix_append)
  moreover from n have "TrimSuffix t '')'' = t" by (rule TrimSuffix_other)
  ultimately show ?thesis by (simp only: inner_text_def)
qed

lemma inner_text_trailing: "\<not> prefix ''$('' (u @ '')'') \<Longrightarrow> inner_text (u @ '')'') = u"
proof -
  assume n: "\<not> prefix ''$('' (u @ '')'')"
  then have "TrimPrefix (u @ '')'') ''$('' = u @ '')''" by (rule TrimPrefix_other)
  moreover have "TrimSuffix (u @ '')'') '')'' = u" by (rule TrimSuffix_append)
  ultimately show ?thesis by (simp only: inner_text_def)
qed

lemma inner_text_neither: "\<not> prefix ''$('' s \<Longrightarrow> \<not> suffix '')'' s \<Longrightarrow> inner_text s = s"
proof -
  assume n: "\<not> prefix ''$('' s" and m: "\<not> suffix '')'' s"
  from n have "TrimPrefix s ''$('' = s" by (rule TrimPrefix_other)
  moreover from m have "TrimSuffix s '')'' = s" by (rule TrimSuffix_other)
  ultimately show ?thesis by (simp only: inner_text_def)
qed

lemma Value_NativeToValue: "Value (NativeToValue v) = v" if "directly_convertible v"
  using that
proof (induction v)
  case (NMap kvs)
  have "map (\<lambda>(k, v). (k, Value v)) (map (\<lambda>(k, v). (k, NativeToValue v)) kvs) = kvs"
  proof -
    have "\<And>kv. kv \<in> set kvs \<Longrightarrow> (case kv of (k, v) \<Rightarrow> (k, Value (NativeToValue v))) = kv"
    proof -
      fix kv assume m: "kv \<in> set kvs"
      obtain k v where kv: "kv = (k, v)" by (cases kv)
      from m NMap.prems kv have "directly_convertible v"
        by (auto simp: list_all_iff)
      moreover have "v \<in> Basic_BNFs.snds kv" using kv by simp
      ultimately have "Value (NativeToValue v) = v" using NMap.IH m by blast
      then show "(case kv of (k, v) \<Rightarrow> (k, Value (NativeToValue v))) = kv" using kv by simp
    qed
    then have "map (\<lambda>kv. case kv of (k, v) \<Rightarrow> (k, Value (NativeToValue v))) kvs = kvs"
      by (simp add: map_idI)
    moreover have "map (\<lambda>(k, v). (k, Value v)) (map (\<lambda>(k, v). (k, NativeToValue v)) kvs)
        = map (\<lambda>kv. case kv of (k, v) \<Rightarrow> (k, Value (NativeToValue v))) kvs"
      by (simp add: case_prod_beta)
    ultimately show ?thesis by simp
  qed
  then show ?case by simp
qed simp_all

section \<open>Properties of the scanner loop\<close>

lemma scan_key_other: "scan_key L e funcs ce d k = Inr d' \<Longrightarrow> k' \<noteq> k \<Longrightarrow> d' k' = d k'"
  by (auto simp: scan_key_def split: option.splits native.splits if_splits sum.splits)

lemma scan_key_no_match:
  "d k' = Some (NString s) \<Longrightarrow> \<not> regexp_Match s \<Longrightarrow> scan_key L e funcs ce d k = Inr d' \<Longrightarrow>
   d' k' = Some (NString s)"
  by (cases "k' = k")
    (auto simp: scan_key_def split: option.splits native.splits if_splits sum.splits)

lemma scan_key_match:
  "d k = Some (NString s) \<Longrightarrow> regexp_Match s \<Longrightarrow>
   scan_key L e funcs ce d k =
     (case evaluate L e funcs ce (inner_text s) of
        Inl x \<Rightarrow> Inl x
      | Inr out \<Rightarrow> Inr (d(k \<mapsto> Value out)))"
  by (simp add: scan_key_def)

lemma scan_no_match:
  "d k = Some (NString s) \<Longrightarrow> \<not> regexp_Match s \<Longrightarrow>
   memory (scan L e funcs ce ks d) k = Some (NString s)"
proof (induction ks arbitrary: d)
  case Nil
  then show ?case by (simp add: memory_def)
next
  case (Cons k' ks)
  show ?case
  proof (cases "scan_key L e funcs ce d k'")
    case (Inl x)
    with Cons.prems show ?thesis by (simp add: memory_def)
  next
    case (Inr d')
    with Cons.prems have "d' k = Some (NString s)" by (blast intro: scan_key_no_match)
    with Cons.IH Cons.prems(2) Inr show ?thesis by simp
  qed
qed

lemma scan_append:
  "scan L e funcs ce (ks1 @ ks2) d =
     (case scan L e funcs ce ks1 d of
        Inl r \<Rightarrow> Inl r
      | Inr d1 \<Rightarrow> scan L e funcs ce ks2 d1)"
  by (induction ks1 arbitrary: d) (auto split: sum.splits)

lemma scan_untouched:
  "scan L e funcs ce ks d = Inr d' \<Longrightarrow> k \<notin> set ks \<Longrightarrow> d' k = d k"
proof (induction ks arbitrary: d)
  case Nil
  then show ?case by simp
next
  case (Cons k' ks)
  from Cons.prems(1) obtain d1 where s1: "scan_key L e funcs ce d k' = Inr d1"
    and s2: "scan L e funcs ce ks d1 = Inr d'"
    by (auto split: sum.splits)
  from Cons.prems(2) have "k \<noteq> k'" "k \<notin> set ks" by auto
  from s1 \<open>k \<noteq> k'\<close> have "d1 k = d k" by (rule scan_key_other)
  moreover from s2 \<open>k \<notin> set ks\<close> have "d' k = d1 k" by (rule Cons.IH)
  ultimately show ?case by simp
qed

lemma scan_replaced:
  assumes "scan L e funcs ce ks d = Inr d'" and "distinct ks" and "k \<in> set ks"
    and "d k = Some (NString s)" and "regexp_Match s"
  shows "\<exists>out. evaluate L e funcs ce (inner_text s) = Inr out \<and> d' k = Some (Value out)"
  using assms
proof (induction ks arbitrary: d)
  case Nil
  then show ?case by simp
next
  case (Cons k' ks)
  from Cons.prems(1) obtain d1 where s1: "scan_key L e funcs ce d k' = Inr d1"
    and s2: "scan L e funcs ce ks d1 = Inr d'"
    by (auto split: sum.splits)
  show ?case
  proof (cases "k' = k")
    case True
    with s1 Cons.prems(4,5) obtain out
      where ev: "evaluate L e funcs ce (inner_text s) = Inr out" and d1: "d1 = d(k \<mapsto> Value out)"
      by (auto simp: scan_key_match split: sum.splits)
    from Cons.prems(2) True have "k \<notin> set ks" by simp
    with s2 have "d' k = d1 k" by (rule scan_untouched)
    with ev d1 show ?thesis by simp
  next
    case False
    with s1 have "d1 k = d k" by (simp add: scan_key_other)
    with Cons.prems False have "k \<in> set ks" "distinct ks" "d1 k = Some (NString s)" by auto
    with Cons.IH s2 Cons.prems(5) show ?thesis by blast
  qed
qed

lemma scan_aborts:
  assumes "k \<in> set ks" and "d k = Some (NString s)" and "regexp_Match s"
    and "evaluate L e funcs ce (inner_text s) = Inl x"
  shows "\<exists>r. scan L e funcs ce ks d = Inl r"
  using assms(1,2)
proof (induction ks arbitrary: d)
  case Nil
  then show ?case by simp
next
  case (Cons k' ks)
  show ?case
  proof (cases "scan_key L e funcs ce d k'")
    case (Inl y)
    then show ?thesis by simp
  next
    case (Inr d1)
    have ne: "k' \<noteq> k"
    proof
      assume "k' = k"
      with Cons.prems(2) assms(3,4) have "scan_key L e funcs ce d k' = Inl x"
        by (simp add: scan_key_match)
      with Inr show False by simp
    qed
    with Inr have "d1 k = d k" by (simp add: scan_key_other)
    with Cons.prems ne have "k \<in> set ks" "d1 k = Some (NString s)" by auto
    with Cons.IH obtain r where "scan L e funcs ce ks d1 = Inl r" by blast
    with Inr show ?thesis by simp
  qed
qed

lemma evaluate_parse_fails: "Parse L e s = Inl iss \<Longrightarrow> evaluate L e funcs ce s = Inl (Fatal iss)"
  by (simp add: evaluate_def)

lemma evaluate_check_fails:
  "Parse L e s = Inr p \<Longrightarrow> Check L e p = Inl iss \<Longrightarrow> evaluate L e funcs ce s = Inl (Fatal iss)"
  by (simp add: evaluate_def)

lemma evaluate_stages:
  "evaluate L e funcs ce s = Inr out \<longleftrightarrow>
     (\<exists>p c prg. Parse L e s = Inr p \<and> Check L e p = Inr c \<and> Program L e c funcs = Inr prg \<and>
        Eval L prg (activation_yaml ce) = Out out)"
  by (auto simp: evaluate_def split: sum.splits eval_result.splits)

lemma scan_replaced_stages:
  assumes "scan L e funcs ce ks d = Inr d'" and "distinct ks" and "k \<in> set ks"
    and "d k = Some (NString s)" and "regexp_Match s"
  shows "\<exists>p c prg out. Parse L e (inner_text s) = Inr p \<and> Check L e p = Inr c \<and>
      Program L e c funcs = Inr prg \<and> Eval L prg (activation_yaml ce) = Out out \<and>
      d' k = Some (Value out)"
proof -
  from assms have "\<exists>out. evaluate L e funcs ce (inner_text s) = Inr out \<and> d' k = Some (Value out)"
    by (rule scan_replaced)
  then obtain out where ev: "evaluate L e funcs ce (inner_text s) = Inr out"
    and v: "d' k = Some (Value out)"
    by (elim exE conjE)
  from ev obtain p c prg where "Parse L e (inner_text s) = Inr p" "Check L e p = Inr c"
    "Program L e c funcs = Inr prg" "Eval L prg (activation_yaml ce) = Out out"
    unfolding evaluate_stages by (elim exE conjE)
  with v show ?thesis by (intro exI conjI)
qed

lemma main_yaml_scan:
  assumes "Unmarshal js ceJSON = Inr ce" and "NewEnv L decls_yaml = Inr e"
    and "yaml_Unmarshal expr = Inr d"
    and "main_yaml js yaml_Unmarshal range_keys gh L expr ceJSON = Inr out"
  shows "scan L e (funcs_yaml gh js) ce (range_keys d) d = Inr out"
  using assms by (auto simp: main_yaml_def split: sum.splits prod.splits)

section \<open>Runs of the modelled engine\<close>

lemmas lexer_defs = is_space_def is_digit_def is_letter_def is_ident_char_def string_char_def
  digits_value_def

lemma cel_go_sel:
  "NewEnv cel_go = cel_NewEnv" "Parse cel_go = cel_Parse" "Check cel_go = cel_Check"
  "AstToParsedExpr cel_go = cel_AstToParsedExpr" "AstToCheckedExpr cel_go = cel_AstToCheckedExpr"
  "Program cel_go = cel_Program" "Eval cel_go = cel_Eval"
  by (simp_all add: cel_go_def)

lemma tokenize_true: "tokenize ''true'' = Some [TokIdent ''true'']"
  by (simp add: tokenize.simps lexer_defs)

lemma tokenize_dog: "tokenize ''dog'' = Some [TokIdent ''dog'']"
  by (simp add: tokenize.simps lexer_defs)

lemma tokenize_padded: "tokenize ''x$(true'' = None"
  by (simp add: tokenize.simps lexer_defs)

lemma tokenize_defaultExpr:
  "tokenize defaultExpr =
     Some [TokIdent ''ce'', TokDot, TokIdent ''type'', TokEqEq, TokString ''com.example.someevent'']"
  by (simp add: defaultExpr_def tokenize.simps lexer_defs)

lemma evaluate_true: "evaluate cel_go e funcs ce ''true'' = Inr (VBool True)"
  by (simp add: evaluate_def cel_go_sel cel_Parse_def tokenize_true parse_expr_def cel_Check_def
      cel_Program_def cel_Eval_def)

lemma Parse_dog: "cel_Parse e ''dog'' = Inr \<lparr>Expr = Ident ''dog'', IsChecked = False\<rparr>"
  by (simp add: cel_Parse_def tokenize_dog parse_expr_def reserved_def)

lemma Check_dog:
  "cel_Check decls_yaml \<lparr>Expr = Ident ''dog'', IsChecked = False\<rparr>
     = Inl ''undeclared reference to dog''"
  by (simp add: cel_Check_def decls_yaml_def)

lemma Parse_defaultExpr:
  "cel_Parse e defaultExpr =
     Inr \<lparr>Expr = Eq (Select (Ident ''ce'') ''type'') (Lit (CString ''com.example.someevent'')),
          IsChecked = False\<rparr>"
  by (simp add: cel_Parse_def tokenize_defaultExpr parse_expr_def reserved_def)

lemma NewEnv_single: "cel_NewEnv decls_single = Inr decls_single"
  by (simp add: cel_NewEnv_def decls_single_def)

lemma NewEnv_yaml: "cel_NewEnv decls_yaml = Inr decls_yaml"
  by (simp add: cel_NewEnv_def decls_yaml_def)

lemma Check_defaultExpr:
  "cel_Check decls_single
     \<lparr>Expr = Eq (Select (Ident ''ce'') ''type'') (Lit (CString ''com.example.someevent'')),
      IsChecked = False\<rparr>
   = Inr \<lparr>Expr = Eq (Select (Ident ''ce'') ''type'') (Lit (CString ''com.example.someevent'')),
      IsChecked = True\<rparr>"
  by (simp add: cel_Check_def decls_single_def assignable_def)

lemma Program_defaultExpr:
  "cel_Program e
     \<lparr>Expr = Eq (Select (Ident ''ce'') ''type'') (Lit (CString ''com.example.someevent'')),
      IsChecked = True\<rparr> funcs
   = Inr \<lparr>Body = Eq (Select (Ident ''ce'') ''type'') (Lit (CString ''com.example.someevent'')),
      Bindings = funcs\<rparr>"
  by (simp add: cel_Program_def)

lemma Eval_defaultExpr:
  "cel_Eval
     \<lparr>Body = Eq (Select (Ident ''ce'') ''type'') (Lit (CString ''com.example.someevent'')),
      Bindings = funcs\<rparr> (activation_single [(''type'', NString t)])
   = Out (VBool (t = ''com.example.someevent''))"
  by (simp add: cel_Eval_def activation_single_def)

lemma main_single_default:
  assumes "Unmarshal js ceJSON = Inr [(''type'', NString t)]"
  shows "main_single js gh cel_go defaultExpr ceJSON = Inr (VBool (t = ''com.example.someevent''))"
  unfolding main_single_def cel_go_sel
  by (simp add: NewEnv_single Parse_defaultExpr cel_AstToParsedExpr_def Check_defaultExpr
      cel_AstToCheckedExpr_def Program_defaultExpr assms Eval_defaultExpr)

lemma tokenize_commit_bad_sha:
  "tokenize (commit_expr ''bad-sha'') =
     Some [TokIdent ''commit'', TokLParen, TokString ''o'', TokComma, TokString ''r'', TokComma,
           TokString ''bad-sha'', TokRParen]"
  by (simp add: commit_expr_def tokenize.simps lexer_defs)

lemma tokenize_commit_cyclic:
  "tokenize (commit_expr ''cyclic'') =
     Some [TokIdent ''commit'', TokLParen, TokString ''o'', TokComma, TokString ''r'', TokComma,
           TokString ''cyclic'', TokRParen]"
  by (simp add: commit_expr_def tokenize.simps lexer_defs)

lemma parse_commit:
  "parse_expr [TokIdent ''commit'', TokLParen, TokString ''o'', TokComma, TokString ''r'', TokComma,
           TokString v, TokRParen]
   = Some (Call ''commit'' [Lit (CString ''o''), Lit (CString ''r''), Lit (CString v)])"
  by (simp add: parse_expr_def parse_arg_list.simps reserved_def)

lemma Check_commit:
  "cel_Check decls_single
     \<lparr>Expr = Call ''commit'' [Lit (CString ''o''), Lit (CString ''r''), Lit (CString v)],
      IsChecked = False\<rparr>
   = Inr \<lparr>Expr = Call ''commit'' [Lit (CString ''o''), Lit (CString ''r''), Lit (CString v)],
      IsChecked = True\<rparr>"
  by (simp add: cel_Check_def decls_single_def resolve_call_def assignable_def)

lemma Program_commit:
  "cel_Program e
     \<lparr>Expr = Call ''commit'' [Lit (CString ''o''), Lit (CString ''r''), Lit (CString v)],
      IsChecked = True\<rparr> (funcs_single gh js)
   = Inr \<lparr>Body = Call ''commit'' [Lit (CString ''o''), Lit (CString ''r''), Lit (CString v)],
      Bindings = funcs_single gh js\<rparr>"
  by (simp add: cel_Program_def funcs_single_def)

lemma Eval_commit:
  "cel_Eval
     \<lparr>Body = Call ''commit'' [Lit (CString ''o''), Lit (CString ''r''), Lit (CString v)],
      Bindings = funcs_single gh js\<rparr> act
   = (case commit_single gh js [VString ''o'', VString ''r'', VString v] of
        Inl (Panic m) \<Rightarrow> EvalPanic m
      | Inr (VErr m) \<Rightarrow> EvalErr m
      | Inr w \<Rightarrow> Out w)"
  by (simp add: cel_Eval_def call_binding_def funcs_single_def)

lemma main_single_commit:
  assumes "tokenize text =
     Some [TokIdent ''commit'', TokLParen, TokString ''o'', TokComma, TokString ''r'', TokComma,
           TokString v, TokRParen]"
    and "Unmarshal js ceJSON = Inr ce"
    and "commit_single gh js [VString ''o'', VString ''r'', VString v] = Inr (VErr m)"
  shows "main_single js gh cel_go text ceJSON = Inl (Fatal (''runtime error: '' @ m))"
  unfolding main_single_def cel_go_sel
  by (simp add: NewEnv_single cel_Parse_def assms parse_commit cel_AstToParsedExpr_def
      Check_commit cel_AstToCheckedExpr_def Program_commit Eval_commit)

lemma tokenize_cat: "tokenize ''cat'' = Some [TokIdent ''cat'']"
  by (simp add: tokenize.simps lexer_defs)

lemma evaluate_cat: "evaluate cel_go decls_yaml funcs ce ''cat'' = Inr (VString cat)"
  by (simp add: evaluate_def cel_go_sel cel_Parse_def tokenize_cat parse_expr_def reserved_def
      cel_Check_def decls_yaml_def cel_Program_def cel_Eval_def activation_yaml_def)

lemma regexp_Match_cat: "regexp_Match ''$(cat)''"
  by simp

lemma inner_text_cat: "inner_text ''$(cat)'' = ''cat''"
  by (simp add: inner_text_def TrimPrefix_def TrimSuffix_def HasPrefix_def HasSuffix_def)

lemma cat_run:
  "scan cel_go decls_yaml funcs ce [NString ''k''] cat_template
     = Inr (cat_template(NString ''k'' \<mapsto> NString cat))"
  by (simp add: cat_template_def scan_key_def evaluate_cat inner_text_cat)

lemma regexp_Match_true: "regexp_Match ''$(true)''"
  by simp

lemma inner_text_true: "inner_text ''$(true)'' = ''true''"
  by (simp add: inner_text_def TrimPrefix_def TrimSuffix_def HasPrefix_def HasSuffix_def)

lemma inner_text_dog: "inner_text ''$(dog)'' = ''dog''"
  by (simp add: inner_text_def TrimPrefix_def TrimSuffix_def HasPrefix_def HasSuffix_def)

lemma sample_run:
  "scan cel_go e funcs ce sample_keys sample_template
     = Inr (sample_template(NString ''a'' \<mapsto> NBool True))"
  by (simp add: sample_keys_def sample_template_def scan_key_def evaluate_true inner_text_true)

lemma evaluate_dog:
  "evaluate cel_go decls_yaml funcs ce ''dog'' = Inl (Fatal ''undeclared reference to dog'')"
  by (simp add: evaluate_def cel_go_sel Parse_dog Check_dog)

lemma broken_run:
  "scan cel_go decls_yaml funcs ce sample_keys broken_template
     = Inl (Fatal ''undeclared reference to dog'', broken_template(NString ''a'' \<mapsto> NBool True))"
  by (simp add: sample_keys_def broken_template_def scan_key_def evaluate_true inner_text_true
      inner_text_dog evaluate_dog)


section \<open>Template Scanner: placeholder detection and substitution\<close>

text \<open>
  Claim C1. A string value that does not match the placeholder pattern is still at its
  key when the loop has ended, whether the run completed or was aborted. When the run
  completes, a matching string value has been replaced at its key by the native form of
  the value that the engine's \<open>Eval\<close> returned for the program that \<open>Parse\<close>, \<open>Check\<close>
  and \<open>Program\<close> made of its inner text, on the input bindings of the template program;
  this holds for every engine. With the modelled engine the value \<open>$(true)\<close> is replaced
  by the boolean \<open>true\<close>, which is not the string \<open>true\<close>, and the value \<open>$(cat)\<close> by
  the string bound to \<open>cat\<close>. The same holds of the document that \<open>main\<close> returns,
  when the loop visits every key of the decoded template once.
\<close>

theorem placeholder_detection:
  "(d ka = Some (NString s) \<and> \<not> regexp_Match s \<longrightarrow>
      memory (scan L e funcs ce ks d) ka = Some (NString s)) \<and>
   (distinct ks \<and> kb \<in> set ks \<and> d kb = Some (NString u) \<and> regexp_Match u \<and>
    scan L e funcs ce ks d = Inr d' \<longrightarrow>
      (\<exists>p c prg out. Parse L e (inner_text u) = Inr p \<and> Check L e p = Inr c \<and>
         Program L e c funcs = Inr prg \<and> Eval L prg (activation_yaml ce) = Out out \<and>
         d' kb = Some (Value out))) \<and>
   (distinct ks \<and> kc \<in> set ks \<and> d kc = Some (NString ''$(true)'') \<and>
    scan cel_go env funcs ce ks d = Inr d'' \<longrightarrow>
      d'' kc = Some (NBool True) \<and> d'' kc \<noteq> Some (NString ''true'')) \<and>
   (distinct ks \<and> kd \<in> set ks \<and> d kd = Some (NString ''$(cat)'') \<and>
    scan cel_go decls_yaml funcs ce ks d = Inr dc \<longrightarrow>
      dc kd = Some (NString cat)) \<and>
   (Unmarshal js ceJSON = Inr ce \<and> NewEnv L decls_yaml = Inr e \<and>
    yaml_Unmarshal expr = Inr d \<and> distinct (range_keys d) \<and> set (range_keys d) = dom d \<and>
    main_yaml js yaml_Unmarshal range_keys gh L expr ceJSON = Inr res \<longrightarrow>
      (\<forall>k v. d k = Some (NString v) \<longrightarrow>
         (\<not> regexp_Match v \<longrightarrow> res k = Some (NString v)) \<and>
         (regexp_Match v \<longrightarrow>
            (\<exists>p c prg out. Parse L e (inner_text v) = Inr p \<and> Check L e p = Inr c \<and>
               Program L e c (funcs_yaml gh js) = Inr prg \<and>
               Eval L prg (activation_yaml ce) = Out out \<and> res k = Some (Value out)))))"
proof (intro conjI impI allI)
  assume "d ka = Some (NString s) \<and> \<not> regexp_Match s"
  then show "memory (scan L e funcs ce ks d) ka = Some (NString s)"
    by (simp add: scan_no_match)
next
  assume "distinct ks \<and> kb \<in> set ks \<and> d kb = Some (NString u) \<and> regexp_Match u \<and>
    scan L e funcs ce ks d = Inr d'"
  then have "scan L e funcs ce ks d = Inr d'" "distinct ks" "kb \<in> set ks"
    "d kb = Some (NString u)" "regexp_Match u"
    by simp_all
  then show "\<exists>p c prg out. Parse L e (inner_text u) = Inr p \<and> Check L e p = Inr c \<and>
      Program L e c funcs = Inr prg \<and> Eval L prg (activation_yaml ce) = Out out \<and>
      d' kb = Some (Value out)"
    by (rule scan_replaced_stages)
next
  assume a: "distinct ks \<and> kc \<in> set ks \<and> d kc = Some (NString ''$(true)'') \<and>
    scan cel_go env funcs ce ks d = Inr d''"
  then have "scan cel_go env funcs ce ks d = Inr d''" "distinct ks" "kc \<in> set ks"
    "d kc = Some (NString ''$(true)'')"
    by simp_all
  then have "\<exists>out. evaluate cel_go env funcs ce (inner_text ''$(true)'') = Inr out \<and>
      d'' kc = Some (Value out)"
    using regexp_Match_true by (rule scan_replaced)
  then obtain out where "evaluate cel_go env funcs ce (inner_text ''$(true)'') = Inr out"
    and "d'' kc = Some (Value out)"
    by (elim exE conjE)
  then have v: "d'' kc = Some (NBool True)"
    by (auto simp: inner_text_true evaluate_true)
  then show "d'' kc = Some (NBool True)" .
  from v show "d'' kc \<noteq> Some (NString ''true'')" by simp
next
  assume "distinct ks \<and> kd \<in> set ks \<and> d kd = Some (NString ''$(cat)'') \<and>
    scan cel_go decls_yaml funcs ce ks d = Inr dc"
  then have "scan cel_go decls_yaml funcs ce ks d = Inr dc" "distinct ks" "kd \<in> set ks"
    "d kd = Some (NString ''$(cat)'')"
    by simp_all
  then have "\<exists>out. evaluate cel_go decls_yaml funcs ce (inner_text ''$(cat)'') = Inr out \<and>
      dc kd = Some (Value out)"
    using regexp_Match_cat by (rule scan_replaced)
  then obtain out where "evaluate cel_go decls_yaml funcs ce (inner_text ''$(cat)'') = Inr out"
    and "dc kd = Some (Value out)"
    by (elim exE conjE)
  then show "dc kd = Some (NString cat)"
    by (auto simp: inner_text_cat evaluate_cat)
next
  fix k v
  assume m: "Unmarshal js ceJSON = Inr ce \<and> NewEnv L decls_yaml = Inr e \<and>
    yaml_Unmarshal expr = Inr d \<and> distinct (range_keys d) \<and> set (range_keys d) = dom d \<and>
    main_yaml js yaml_Unmarshal range_keys gh L expr ceJSON = Inr res"
    and dk: "d k = Some (NString v)"
  from m have "Unmarshal js ceJSON = Inr ce" "NewEnv L decls_yaml = Inr e"
    "yaml_Unmarshal expr = Inr d"
    "main_yaml js yaml_Unmarshal range_keys gh L expr ceJSON = Inr res"
    by simp_all
  then have run: "scan L e (funcs_yaml gh js) ce (range_keys d) d = Inr res"
    by (rule main_yaml_scan)
  from m have dist: "distinct (range_keys d)" and keys: "set (range_keys d) = dom d"
    by simp_all
  from dk keys have mem: "k \<in> set (range_keys d)" by auto
  { assume "\<not> regexp_Match v"
    with dk have "memory (scan L e (funcs_yaml gh js) ce (range_keys d) d) k = Some (NString v)"
      by (rule scan_no_match)
    then show "res k = Some (NString v)" by (simp add: run memory_def) }
  { assume "regexp_Match v"
    with run dist mem dk
    show "\<exists>p c prg out. Parse L e (inner_text v) = Inr p \<and> Check L e p = Inr c \<and>
        Program L e c (funcs_yaml gh js) = Inr prg \<and>
        Eval L prg (activation_yaml ce) = Out out \<and> res k = Some (Value out)"
      by (rule scan_replaced_stages) }
qed

theorem placeholder_detection_witness:
  "memory (scan cel_go decls_yaml (funcs_yaml stub_github stub_json) [(''type'', NString ''x'')]
      sample_keys sample_template) (NString ''b'') = Some (NString ''hello'') \<and>
   scan cel_go decls_yaml (funcs_yaml stub_github stub_json) [(''type'', NString ''x'')]
      sample_keys sample_template
     = Inr (sample_template(NString ''a'' \<mapsto> NBool True)) \<and>
   (\<exists>p c prg out. Parse cel_go decls_yaml (inner_text ''$(true)'') = Inr p \<and>
      Check cel_go decls_yaml p = Inr c \<and>
      Program cel_go decls_yaml c (funcs_yaml stub_github stub_json) = Inr prg \<and>
      Eval cel_go prg (activation_yaml [(''type'', NString ''x'')]) = Out out \<and>
      (sample_template(NString ''a'' \<mapsto> NBool True)) (NString ''a'') = Some (Value out)) \<and>
   (sample_template(NString ''a'' \<mapsto> NBool True)) (NString ''a'') = Some (NBool True) \<and>
   (sample_template(NString ''a'' \<mapsto> NBool True)) (NString ''a'') \<noteq> Some (NString ''true'') \<and>
   scan cel_go decls_yaml (funcs_yaml stub_github stub_json) [(''type'', NString ''x'')]
      [NString ''k''] cat_template
     = Inr (cat_template(NString ''k'' \<mapsto> NString cat)) \<and>
   (cat_template(NString ''k'' \<mapsto> NString cat)) (NString ''k'') = Some (NString cat) \<and>
   main_yaml stub_json stub_yaml (\<lambda>d. sample_keys) stub_github cel_go sample_yaml x_json
     = Inr (sample_template(NString ''a'' \<mapsto> NBool True)) \<and>
   (sample_template(NString ''a'' \<mapsto> NBool True)) (NString ''b'') = Some (NString ''hello'')"
proof -
  let ?f = "funcs_yaml stub_github stub_json"
  let ?ce = "[(''type'', NString ''x'')]"
  let ?d' = "sample_template(NString ''a'' \<mapsto> NBool True)"
  let ?dc = "cat_template(NString ''k'' \<mapsto> NString cat)"
  have run: "scan cel_go decls_yaml ?f ?ce sample_keys sample_template = Inr ?d'"
    by (rule sample_run)
  have crun: "scan cel_go decls_yaml ?f ?ce [NString ''k''] cat_template = Inr ?dc"
    by (rule cat_run)
  have u: "Unmarshal stub_json x_json = Inr ?ce"
    by (simp add: stub_json_def someevent_json_def x_json_def)
  have env: "NewEnv cel_go decls_yaml = Inr decls_yaml" by (simp add: cel_go_sel NewEnv_yaml)
  have y: "stub_yaml sample_yaml = Inr sample_template"
    by (simp add: stub_yaml_def sample_yaml_def)
  have dist: "distinct sample_keys" by (simp add: sample_keys_def)
  have keys: "set sample_keys = dom sample_template"
    by (auto simp: sample_keys_def sample_template_def)
  have mrun: "main_yaml stub_json stub_yaml (\<lambda>d. sample_keys) stub_github cel_go sample_yaml x_json
      = Inr ?d'"
    by (simp add: main_yaml_def u env y run)
  have da: "sample_template (NString ''a'') = Some (NString ''$(true)'')"
    and db: "sample_template (NString ''b'') = Some (NString ''hello'')"
    by (simp_all add: sample_template_def)
  have nb: "\<not> regexp_Match ''hello''" by simp
  have ina: "NString ''a'' \<in> set sample_keys" by (simp add: sample_keys_def)
  have dk: "cat_template (NString ''k'') = Some (NString ''$(cat)'')"
    by (simp add: cat_template_def)
  note t = placeholder_detection [where d = sample_template and ks = sample_keys
      and L = cel_go and e = decls_yaml and env = decls_yaml and funcs = ?f and ce = ?ce
      and ka = "NString ''b''" and s = "''hello''"
      and kb = "NString ''a''" and u = "''$(true)''" and d' = ?d'
      and kc = "NString ''a''" and d'' = ?d'
      and js = stub_json and ceJSON = x_json and yaml_Unmarshal = stub_yaml
      and expr = sample_yaml and range_keys = "\<lambda>d. sample_keys" and gh = stub_github
      and res = ?d']
  note tc = placeholder_detection [where d = cat_template and ks = "[NString ''k'']"
      and funcs = ?f and ce = ?ce and kd = "NString ''k''" and dc = ?dc]
  from db nb
  have w1: "memory (scan cel_go decls_yaml ?f ?ce sample_keys sample_template) (NString ''b'')
      = Some (NString ''hello'')"
    by (intro t [THEN conjunct1, THEN mp] conjI)
  from dist ina da regexp_Match_true run
  have w2: "\<exists>p c prg out. Parse cel_go decls_yaml (inner_text ''$(true)'') = Inr p \<and>
      Check cel_go decls_yaml p = Inr c \<and> Program cel_go decls_yaml c ?f = Inr prg \<and>
      Eval cel_go prg (activation_yaml ?ce) = Out out \<and> ?d' (NString ''a'') = Some (Value out)"
    by (intro t [THEN conjunct2, THEN conjunct1, THEN mp] conjI)
  from dist ina da run
  have w3: "?d' (NString ''a'') = Some (NBool True) \<and> ?d' (NString ''a'') \<noteq> Some (NString ''true'')"
    by (intro t [THEN conjunct2, THEN conjunct2, THEN conjunct1, THEN mp] conjI)
  from dk crun
  have w4: "?dc (NString ''k'') = Some (NString cat)"
    by (intro tc [THEN conjunct2, THEN conjunct2, THEN conjunct2, THEN conjunct1, THEN mp] conjI)
      simp_all
  from u env y dist keys mrun
  have w5: "\<forall>k v. sample_template k = Some (NString v) \<longrightarrow>
      (\<not> regexp_Match v \<longrightarrow> ?d' k = Some (NString v)) \<and>
      (regexp_Match v \<longrightarrow>
         (\<exists>p c prg out. Parse cel_go decls_yaml (inner_text v) = Inr p \<and>
            Check cel_go decls_yaml p = Inr c \<and> Program cel_go decls_yaml c ?f = Inr prg \<and>
            Eval cel_go prg (activation_yaml ?ce) = Out out \<and> ?d' k = Some (Value out)))"
    by (intro t [THEN conjunct2, THEN conjunct2, THEN conjunct2, THEN conjunct2, THEN mp] conjI)
  from w5 db nb have w6: "?d' (NString ''b'') = Some (NString ''hello'')" by blast
  from w1 run w2 w3 crun w4 mrun w6 show ?thesis by (intro conjI) simp_all
qed

section \<open>Template Scanner: a failing placeholder ends the run\<close>

text \<open>
  Claim C2. In template mode, when the inner text of one placeholder of the template
  document fails to parse or fails to check, \<open>main\<close> ends with a failure and returns no
  document, whatever the other keys hold and in whatever order the keys are visited.
\<close>

theorem failed_placeholder_aborts_run:
  assumes "NewEnv L decls_yaml = Inr e" and "yaml_Unmarshal expr = Inr d"
    and "k \<in> set (range_keys d)" and "d k = Some (NString s)" and "regexp_Match s"
    and "(\<exists>iss. Parse L e (inner_text s) = Inl iss) \<or>
         (\<exists>p iss. Parse L e (inner_text s) = Inr p \<and> Check L e p = Inl iss)"
  shows "\<exists>x. main_yaml js yaml_Unmarshal range_keys gh L expr ceJSON = Inl x"
proof (cases "Unmarshal js ceJSON")
  case (Inl err)
  then show ?thesis by (simp add: main_yaml_def)
next
  case (Inr cloudEvent)
  from assms(6) obtain iss
    where ev: "evaluate L e (funcs_yaml gh js) cloudEvent (inner_text s) = Inl (Fatal iss)"
  proof (elim disjE exE conjE)
    fix iss assume "Parse L e (inner_text s) = Inl iss"
    then have "evaluate L e (funcs_yaml gh js) cloudEvent (inner_text s) = Inl (Fatal iss)"
      by (rule evaluate_parse_fails)
    then show ?thesis by (rule that)
  next
    fix p iss assume "Parse L e (inner_text s) = Inr p" and "Check L e p = Inl iss"
    then have "evaluate L e (funcs_yaml gh js) cloudEvent (inner_text s) = Inl (Fatal iss)"
      by (rule evaluate_check_fails)
    then show ?thesis by (rule that)
  qed
  from assms(3,4,5) ev
  have "\<exists>r. scan L e (funcs_yaml gh js) cloudEvent (range_keys d) d = Inl r"
    by (rule scan_aborts)
  then obtain x m where "scan L e (funcs_yaml gh js) cloudEvent (range_keys d) d = Inl (x, m)"
    by (metis surj_pair)
  with Inr assms(1,2) show ?thesis
    by (simp add: main_yaml_def)
qed

theorem failed_placeholder_aborts_run_witness:
  "broken_template (NString ''b'') = Some (NString ''$(dog)'') \<and>
   regexp_Match ''$(dog)'' \<and>
   Check cel_go decls_yaml \<lparr>Expr = Ident ''dog'', IsChecked = False\<rparr>
     = Inl ''undeclared reference to dog'' \<and>
   (\<exists>x. main_yaml stub_json stub_yaml (\<lambda>d. sample_keys) stub_github cel_go
      broken_yaml x_json = Inl x)"
proof -
  have h1: "NewEnv cel_go decls_yaml = Inr decls_yaml" by (simp add: cel_go_sel NewEnv_yaml)
  have h2: "stub_yaml broken_yaml = Inr broken_template"
    by (simp add: stub_yaml_def sample_yaml_def broken_yaml_def)
  have h3: "NString ''b'' \<in> set ((\<lambda>d::document. sample_keys) broken_template)"
    by (simp add: sample_keys_def)
  have h4: "broken_template (NString ''b'') = Some (NString ''$(dog)'')"
    by (simp add: broken_template_def)
  have h5: "regexp_Match ''$(dog)''" by simp
  have c: "Check cel_go decls_yaml \<lparr>Expr = Ident ''dog'', IsChecked = False\<rparr>
      = Inl ''undeclared reference to dog''"
    by (simp add: cel_go_sel Check_dog)
  have h6: "(\<exists>iss. Parse cel_go decls_yaml (inner_text ''$(dog)'') = Inl iss) \<or>
      (\<exists>p iss. Parse cel_go decls_yaml (inner_text ''$(dog)'') = Inr p \<and>
         Check cel_go decls_yaml p = Inl iss)"
    using c by (simp add: inner_text_dog cel_go_sel Parse_dog)
  from failed_placeholder_aborts_run [where yaml_Unmarshal = stub_yaml and expr = broken_yaml
      and d = broken_template and range_keys = "\<lambda>d. sample_keys" and k = "NString ''b''"
      and js = stub_json and gh = stub_github and ceJSON = x_json, OF h1 h2 h3 h4 h5 h6]
    h4 h5 c
  show ?thesis by simp
qed

section \<open>Template Scanner: the inner text\<close>

text \<open>
  Claim C3. For a string value \<open>s\<close> that matches the placeholder pattern, the text the
  scanner passes to the pipeline is \<open>inner_text s\<close>, and the key's iteration ends as the
  pipeline's result for that text says. \<open>inner_text s\<close> is \<open>s\<close> without one leading
  \<open>$(\<close>, when \<open>s\<close> starts with it, and without one trailing \<open>)\<close>, when what is left
  ends with it: both are stripped from \<open>$(t)\<close>, only the first from \<open>$(t\<close> with \<open>t\<close>
  not ending in \<open>)\<close>, only the second from \<open>u)\<close> not starting with \<open>$(\<close>, and nothing
  otherwise.
\<close>

theorem inner_text_stripping:
  assumes "d k = Some (NString s)" and "regexp_Match s"
  shows "scan_key L e funcs ce d k =
      (case evaluate L e funcs ce (inner_text s) of
         Inl x \<Rightarrow> Inl x
       | Inr out \<Rightarrow> Inr (d(k \<mapsto> Value out))) \<and>
    (\<forall>t. s = ''$('' @ t @ '')'' \<longrightarrow> inner_text s = t) \<and>
    (\<forall>t. s = ''$('' @ t \<and> \<not> suffix '')'' t \<longrightarrow> inner_text s = t) \<and>
    (\<forall>u. s = u @ '')'' \<and> \<not> prefix ''$('' s \<longrightarrow> inner_text s = u) \<and>
    (\<not> prefix ''$('' s \<and> \<not> suffix '')'' s \<longrightarrow> inner_text s = s)"
proof (intro conjI allI impI)
  from assms show "scan_key L e funcs ce d k =
      (case evaluate L e funcs ce (inner_text s) of
         Inl x \<Rightarrow> Inl x
       | Inr out \<Rightarrow> Inr (d(k \<mapsto> Value out)))"
    by (rule scan_key_match)
next
  fix t assume "s = ''$('' @ t @ '')''"
  with inner_text_both [of t] show "inner_text s = t" by simp
next
  fix t assume a: "s = ''$('' @ t \<and> \<not> suffix '')'' t"
  then have "\<not> suffix '')'' t" by simp
  then have "inner_text (''$('' @ t) = t" by (rule inner_text_leading)
  with a show "inner_text s = t" by simp
next
  fix u assume "s = u @ '')'' \<and> \<not> prefix ''$('' s"
  then have eq: "s = u @ '')''" and n: "\<not> prefix ''$('' s" by blast+
  from n have "\<not> prefix ''$('' (u @ '')'')" unfolding eq .
  then have "inner_text (u @ '')'') = u" by (rule inner_text_trailing)
  then show "inner_text s = u" unfolding eq .
next
  assume "\<not> prefix ''$('' s \<and> \<not> suffix '')'' s"
  then have "\<not> prefix ''$('' s" and "\<not> suffix '')'' s" by simp_all
  then show "inner_text s = s" by (rule inner_text_neither)
qed

theorem inner_text_stripping_witness:
  "padded_template (NString ''a'') = Some (NString ''x$(true)'') \<and>
   regexp_Match ''x$(true)'' \<and>
   \<not> prefix ''$('' ''x$(true)'' \<and>
   inner_text ''x$(true)'' = ''x$(true'' \<and>
   scan_key cel_go decls_yaml [] [] padded_template (NString ''a'') = Inl (Fatal ''Syntax error'')"
proof -
  have h1: "padded_template (NString ''a'') = Some (NString ''x$(true)'')"
    by (simp add: padded_template_def)
  have h2: "regexp_Match ''x$(true)''" by simp
  have h3: "''x$(true)'' = ''x$(true'' @ '')''" by simp
  have h4: "\<not> prefix ''$('' ''x$(true)''" by simp
  note t = inner_text_stripping [where d = padded_template and k = "NString ''a''"
      and s = "''x$(true)''" and L = cel_go and e = decls_yaml and funcs = "[]" and ce = "[]",
      OF h1 h2]
  note t1 = t [THEN conjunct1]
  note t4 = t [THEN conjunct2, THEN conjunct2, THEN conjunct2, THEN conjunct1, rule_format,
      of "''x$(true''"]
  from h3 h4 have i: "inner_text ''x$(true)'' = ''x$(true''" by (intro t4 conjI)
  have "evaluate cel_go decls_yaml [] [] ''x$(true'' = Inl (Fatal ''Syntax error'')"
    by (simp add: evaluate_def cel_go_sel cel_Parse_def tokenize_padded)
  with t1 have "scan_key cel_go decls_yaml [] [] padded_template (NString ''a'')
      = Inl (Fatal ''Syntax error'')"
    unfolding i by simp
  with h1 h2 h4 i show ?thesis by (intro conjI)
qed

section \<open>External function bindings: failures stay in band\<close>

lemma lookup_failure_error_value:
  "(GetCommit gh owner repo revision = Inl err \<longrightarrow>
      commit gh js [VString owner, VString repo, VString revision] = Inr (VErr (doPrintf err)) \<and>
      commit_single gh js [VString owner, VString repo, VString revision]
        = Inr (VErr (doPrintf err))) \<and>
   (PullRequests_Get gh owner repo n = Inl err \<longrightarrow>
      pr gh js [VString owner, VString repo, VInt n] = Inr (VErr (doPrintf err))) \<and>
   (IsCollaborator gh owner repo user = Inl err \<longrightarrow>
      collaborator gh [VString owner, VString repo, VString user] = Inr (VErr (doPrintf err)))"
  by (simp add: commit_def commit_single_def pr_def collaborator_def NewErr_def)

lemmas fmt_defs = directive_def argNumber_def parse_width_def parse_precision_def
  trailing_argNumber_def print_verb_def is_flag_def skip_num_def is_digit_def
  DecodeRuneInString_def

lemma doPrintf_commits:
  "doPrintf ''GET https://api.github.com/repos/o/r/commits/a%20b: 404 Not Found []''
     = ''GET https://api.github.com/repos/o/r/commits/a%!b(MISSING): 404 Not Found []''"
  by (simp add: doPrintf.simps fmt_defs)

lemma doPrintf_pulls:
  "doPrintf ''GET https://api.github.com/repos/my%20org/r/pulls/7: 404 Not Found []''
     = ''GET https://api.github.com/repos/my%!o(MISSING)rg/r/pulls/7: 404 Not Found []''"
  by (simp add: doPrintf.simps fmt_defs)

lemma doPrintf_collaborators:
  "doPrintf ''GET https://api.github.com/repos/o/r/collaborators/a%20b: 404 Not Found []''
     = ''GET https://api.github.com/repos/o/r/collaborators/a%!b(MISSING): 404 Not Found []''"
  by (simp add: doPrintf.simps fmt_defs)

text \<open>
  Claim C4 fails on the code when the message of the lookup's error holds a percent sign.
  The bindings pass the message to \<open>types.NewErr\<close> as the format, so the error value
  they return holds the message as \<open>fmt\<close> rewrites it, and not the message of the
  failure. Here the host reports the URL-escaped path \<open>a%20b\<close>, and the bindings of both
  programs return \<open>a%!b(MISSING)\<close> in its place. The error value is still returned in
  band, without a panic.
\<close>

theorem lookup_message_rewritten:
  "GetCommit escaping_github ''o'' ''r'' ''a b''
     = Inl ''GET https://api.github.com/repos/o/r/commits/a%20b: 404 Not Found []'' \<and>
   commit escaping_github stub_json [VString ''o'', VString ''r'', VString ''a b'']
     = Inr (VErr ''GET https://api.github.com/repos/o/r/commits/a%!b(MISSING): 404 Not Found []'') \<and>
   commit_single escaping_github stub_json [VString ''o'', VString ''r'', VString ''a b'']
     = Inr (VErr ''GET https://api.github.com/repos/o/r/commits/a%!b(MISSING): 404 Not Found []'') \<and>
   PullRequests_Get escaping_github ''my org'' ''r'' 7
     = Inl ''GET https://api.github.com/repos/my%20org/r/pulls/7: 404 Not Found []'' \<and>
   pr escaping_github stub_json [VString ''my org'', VString ''r'', VInt 7]
     = Inr (VErr ''GET https://api.github.com/repos/my%!o(MISSING)rg/r/pulls/7: 404 Not Found []'') \<and>
   IsCollaborator escaping_github ''o'' ''r'' ''a b''
     = Inl ''GET https://api.github.com/repos/o/r/collaborators/a%20b: 404 Not Found []'' \<and>
   collaborator escaping_github [VString ''o'', VString ''r'', VString ''a b'']
     = Inr (VErr
         ''GET https://api.github.com/repos/o/r/collaborators/a%!b(MISSING): 404 Not Found []'')"
proof -
  have g: "GetCommit escaping_github ''o'' ''r'' ''a b''
     = Inl ''GET https://api.github.com/repos/o/r/commits/a%20b: 404 Not Found []''"
    and p: "PullRequests_Get escaping_github ''my org'' ''r'' 7
     = Inl ''GET https://api.github.com/repos/my%20org/r/pulls/7: 404 Not Found []''"
    and c: "IsCollaborator escaping_github ''o'' ''r'' ''a b''
     = Inl ''GET https://api.github.com/repos/o/r/collaborators/a%20b: 404 Not Found []''"
    by (simp_all add: escaping_github_def)
  from g have "commit escaping_github stub_json [VString ''o'', VString ''r'', VString ''a b'']
     = Inr (VErr ''GET https://api.github.com/repos/o/r/commits/a%!b(MISSING): 404 Not Found []'')"
    and "commit_single escaping_github stub_json [VString ''o'', VString ''r'', VString ''a b'']
     = Inr (VErr ''GET https://api.github.com/repos/o/r/commits/a%!b(MISSING): 404 Not Found []'')"
    by (simp_all only: lookup_failure_error_value [THEN conjunct1, THEN mp] doPrintf_commits)
  moreover from p have "pr escaping_github stub_json [VString ''my org'', VString ''r'', VInt 7]
     = Inr (VErr ''GET https://api.github.com/repos/my%!o(MISSING)rg/r/pulls/7: 404 Not Found []'')"
    by (simp only: lookup_failure_error_value [THEN conjunct2, THEN conjunct1, THEN mp]
        doPrintf_pulls)
  moreover from c
  have "collaborator escaping_github [VString ''o'', VString ''r'', VString ''a b'']
     = Inr (VErr
         ''GET https://api.github.com/repos/o/r/collaborators/a%!b(MISSING): 404 Not Found []'')"
    by (simp only: lookup_failure_error_value [THEN conjunct2, THEN conjunct2, THEN mp]
        doPrintf_collaborators)
  ultimately show ?thesis using g p c by (intro conjI)
qed

text \<open>
  Claim C5. Called with a number of arguments other than three, every binding returns
  the error value \<open>invalid args\<close>, whatever the arguments are: the count is checked
  before any argument is read, so no type assertion can panic.
\<close>

theorem wrong_arity_invalid_args:
  "length values \<noteq> 3 \<longrightarrow>
     commit gh js values = Inr (VErr ''invalid args'') \<and>
     pr gh js values = Inr (VErr ''invalid args'') \<and>
     collaborator gh values = Inr (VErr ''invalid args'') \<and>
     commit_single gh js values = Inr (VErr ''invalid args'')"
proof
  assume "length values \<noteq> 3"
  then show "commit gh js values = Inr (VErr ''invalid args'') \<and>
     pr gh js values = Inr (VErr ''invalid args'') \<and>
     collaborator gh values = Inr (VErr ''invalid args'') \<and>
     commit_single gh js values = Inr (VErr ''invalid args'')"
    by (simp add: commit_def pr_def collaborator_def commit_single_def NewErr_invalid_args)
qed

theorem wrong_arity_invalid_args_witness:
  "length [VInt 1, VNull] \<noteq> 3 \<and>
   commit stub_github stub_json [VInt 1, VNull] = Inr (VErr ''invalid args'') \<and>
   pr stub_github stub_json [VInt 1, VNull] = Inr (VErr ''invalid args'') \<and>
   collaborator stub_github [VInt 1, VNull] = Inr (VErr ''invalid args'') \<and>
   commit_single stub_github stub_json [VInt 1, VNull] = Inr (VErr ''invalid args'') \<and>
   commit stub_github stub_json [VInt 1, VNull, VNull]
     = Inl (Panic ''interface conversion: interface {} is not string'')"
proof -
  have h: "length [VInt 1, VNull] \<noteq> 3" by simp
  have p: "commit stub_github stub_json [VInt 1, VNull, VNull]
     = Inl (Panic ''interface conversion: interface {} is not string'')"
    by (simp add: commit_def)
  from wrong_arity_invalid_args [of "[VInt 1, VNull]" stub_github stub_json] h p
  show ?thesis by blast
qed

section \<open>Value Adapter fallback: failures stay in band\<close>

lemma dynamicValue_failure:
  "Marshal js i = Inl err \<or> (Marshal js i = Inr b \<and> Unmarshal js b = Inl err) \<Longrightarrow>
   dynamicValue js i = NewErr err"
  by (auto simp: dynamicValue_def)

lemma commit_fallback_failure:
  "Marshal js i = Inl err \<or> (Marshal js i = Inr b \<and> Unmarshal js b = Inl err) \<Longrightarrow>
   GetCommit gh owner repo revision = Inr i \<Longrightarrow>
   commit gh js [VString owner, VString repo, VString revision] = Inr (NewErr err) \<and>
   commit_single gh js [VString owner, VString repo, VString revision] = Inr (NewErr err)"
  by (auto simp: commit_def commit_single_def dynamicValue_def)

lemma pr_fallback_failure:
  "Marshal js i = Inl err \<or> (Marshal js i = Inr b \<and> Unmarshal js b = Inl err) \<Longrightarrow>
   PullRequests_Get gh owner repo n = Inr i \<Longrightarrow>
   pr gh js [VString owner, VString repo, VInt n] = Inr (NewErr err)"
  by (auto simp: pr_def dynamicValue_def)

text \<open>
  Claim C7. \<open>dynamicValue\<close> serializes its argument and deserializes the text into a
  mapping, which it converts. When either step fails it returns an error value, which
  holds the step's message whenever that message has no percent sign. The bindings that
  use the fallback (\<open>commit\<close> and \<open>pr\<close>, and the inline copy in the single-expression
  program) return that error value as their result, and do not panic.
\<close>

theorem fallback_failure_in_band:
  "((Marshal js i = Inl err \<or> (Marshal js i = Inr b \<and> Unmarshal js b = Inl err)) \<longrightarrow>
      (\<exists>msg. dynamicValue js i = VErr msg) \<and>
      (CHR ''%'' \<notin> set err \<longrightarrow> dynamicValue js i = VErr err) \<and>
      (GetCommit gh owner repo revision = Inr i \<longrightarrow>
         (\<exists>msg. commit gh js [VString owner, VString repo, VString revision] = Inr (VErr msg) \<and>
            commit_single gh js [VString owner, VString repo, VString revision]
              = Inr (VErr msg)) \<and>
         (CHR ''%'' \<notin> set err \<longrightarrow>
            commit gh js [VString owner, VString repo, VString revision] = Inr (VErr err) \<and>
            commit_single gh js [VString owner, VString repo, VString revision]
              = Inr (VErr err))) \<and>
      (PullRequests_Get gh owner repo n = Inr i \<longrightarrow>
         (\<exists>msg. pr gh js [VString owner, VString repo, VInt n] = Inr (VErr msg)) \<and>
         (CHR ''%'' \<notin> set err \<longrightarrow>
            pr gh js [VString owner, VString repo, VInt n] = Inr (VErr err)))) \<and>
   (Marshal js i = Inr b \<and> Unmarshal js b = Inr m \<longrightarrow>
      dynamicValue js i = NativeToValue (NMap m))"
proof (intro conjI impI)
  assume "Marshal js i = Inr b \<and> Unmarshal js b = Inr m"
  then show "dynamicValue js i = NativeToValue (NMap m)" by (simp add: dynamicValue_def)
next
  assume f: "Marshal js i = Inl err \<or> (Marshal js i = Inr b \<and> Unmarshal js b = Inl err)"
  then have d: "dynamicValue js i = NewErr err" by (rule dynamicValue_failure)
  show "\<exists>msg. dynamicValue js i = VErr msg" unfolding d by (rule NewErr_error_value)
  { assume "CHR ''%'' \<notin> set err"
    then show "dynamicValue js i = VErr err" unfolding d by (rule NewErr_plain) }
  { assume g: "GetCommit gh owner repo revision = Inr i"
    note c = commit_fallback_failure [OF f g]
    show "\<exists>msg. commit gh js [VString owner, VString repo, VString revision] = Inr (VErr msg) \<and>
        commit_single gh js [VString owner, VString repo, VString revision] = Inr (VErr msg)"
      using c by (simp add: NewErr_def)
    { assume "CHR ''%'' \<notin> set err"
      then show "commit gh js [VString owner, VString repo, VString revision] = Inr (VErr err)"
        and "commit_single gh js [VString owner, VString repo, VString revision]
          = Inr (VErr err)"
        using c by (simp_all add: NewErr_plain) } }
  { assume g: "PullRequests_Get gh owner repo n = Inr i"
    note c = pr_fallback_failure [OF f g]
    show "\<exists>msg. pr gh js [VString owner, VString repo, VInt n] = Inr (VErr msg)"
      using c by (simp add: NewErr_def)
    { assume "CHR ''%'' \<notin> set err"
      then show "pr gh js [VString owner, VString repo, VInt n] = Inr (VErr err)"
        using c by (simp add: NewErr_plain) } }
qed

theorem fallback_failure_in_band_witness:
  "Marshal stub_json ''cyclic'' = Inl ''json: unsupported value'' \<and>
   dynamicValue stub_json ''cyclic'' = VErr ''json: unsupported value'' \<and>
   Marshal stub_json ''pull'' = Inr ''pull'' \<and>
   Unmarshal stub_json ''pull'' = Inl ''unexpected end of JSON input'' \<and>
   dynamicValue stub_json ''pull'' = VErr ''unexpected end of JSON input'' \<and>
   Unmarshal stub_json ''master'' = Inr [(''sha'', NString ''c0ffee'')] \<and>
   dynamicValue stub_json ''master'' = VMap [(''sha'', VString ''c0ffee'')] \<and>
   commit stub_github stub_json [VString ''o'', VString ''r'', VString ''cyclic'']
     = Inr (VErr ''json: unsupported value'') \<and>
   commit_single stub_github stub_json [VString ''o'', VString ''r'', VString ''cyclic'']
     = Inr (VErr ''json: unsupported value'') \<and>
   pr stub_github stub_json [VString ''o'', VString ''r'', VInt 7]
     = Inr (VErr ''unexpected end of JSON input'') \<and>
   main_single stub_json stub_github cel_go (commit_expr ''cyclic'') x_json
     = Inl (Fatal ''runtime error: json: unsupported value'')"
proof -
  have m1: "Marshal stub_json ''cyclic'' = Inl ''json: unsupported value''"
    and m2: "Marshal stub_json ''pull'' = Inr ''pull''"
    and u2: "Unmarshal stub_json ''pull'' = Inl ''unexpected end of JSON input''"
    and m3: "Marshal stub_json ''master'' = Inr ''master''"
    and u3: "Unmarshal stub_json ''master'' = Inr [(''sha'', NString ''c0ffee'')]"
    and ux: "Unmarshal stub_json x_json = Inr [(''type'', NString ''x'')]"
    by (simp_all add: stub_json_def someevent_json_def x_json_def)
  have g1: "GetCommit stub_github ''o'' ''r'' ''cyclic'' = Inr ''cyclic''"
    and g2: "PullRequests_Get stub_github ''o'' ''r'' 7 = Inr ''pull''"
    by (simp_all add: stub_github_def)
  have f1: "Marshal stub_json ''cyclic'' = Inl ''json: unsupported value'' \<or>
      (Marshal stub_json ''cyclic'' = Inr ''x'' \<and>
       Unmarshal stub_json ''x'' = Inl ''json: unsupported value'')"
    using m1 by (rule disjI1)
  have f2: "Marshal stub_json ''pull'' = Inl ''unexpected end of JSON input'' \<or>
      (Marshal stub_json ''pull'' = Inr ''pull'' \<and>
       Unmarshal stub_json ''pull'' = Inl ''unexpected end of JSON input'')"
    using m2 u2 by (intro disjI2 conjI)
  have f3: "Marshal stub_json ''master'' = Inr ''master'' \<and>
      Unmarshal stub_json ''master'' = Inr [(''sha'', NString ''c0ffee'')]"
    using m3 u3 by (rule conjI)
  note a = fallback_failure_in_band [where js = stub_json and i = "''cyclic''" and b = "''x''"
      and err = "''json: unsupported value''" and gh = stub_github and owner = "''o''"
      and repo = "''r''" and revision = "''cyclic''", THEN conjunct1, THEN mp, OF f1]
  note b = fallback_failure_in_band [where js = stub_json and i = "''pull''" and b = "''pull''"
      and err = "''unexpected end of JSON input''" and gh = stub_github and owner = "''o''"
      and repo = "''r''" and n = 7, THEN conjunct1, THEN mp, OF f2]
  note c = fallback_failure_in_band [where js = stub_json and i = "''master''"
      and b = "''master''" and m = "[(''sha'', NString ''c0ffee'')]", THEN conjunct2, THEN mp,
      OF f3]
  from a g1 have d1: "dynamicValue stub_json ''cyclic'' = VErr ''json: unsupported value''"
    and c1: "commit stub_github stub_json [VString ''o'', VString ''r'', VString ''cyclic'']
     = Inr (VErr ''json: unsupported value'')"
    and c2: "commit_single stub_github stub_json [VString ''o'', VString ''r'', VString ''cyclic'']
     = Inr (VErr ''json: unsupported value'')"
    by simp_all
  from b g2
  have d2: "dynamicValue stub_json ''pull'' = VErr ''unexpected end of JSON input''"
    and p2: "pr stub_github stub_json [VString ''o'', VString ''r'', VInt 7]
     = Inr (VErr ''unexpected end of JSON input'')"
    by simp_all
  from c
  have d3: "dynamicValue stub_json ''master'' = NativeToValue (NMap [(''sha'', NString ''c0ffee'')])" .
  from tokenize_commit_cyclic ux c2
  have run: "main_single stub_json stub_github cel_go (commit_expr ''cyclic'') x_json
      = Inl (Fatal (''runtime error: '' @ ''json: unsupported value''))"
    by (rule main_single_commit)
  from d1 c1 c2 d2 p2 d3 run m1 m2 u2 u3 show ?thesis by simp
qed

section \<open>Expression Environment: what the two programs declare\<close>

text \<open>
  Claim C6, as stated, fails for the single-expression program: its environment does not
  hold the declarations that the spec requires.
\<close>

theorem single_environment_lacks_declarations: "\<not> required_declarations decls_single"
  by (simp add: required_declarations_def decls_single_def)

text \<open>
  Claim C6, amended. The environment of the template program declares exactly the
  identifiers \<open>ce\<close> (dynamic) and \<open>cat\<close> (string) and the functions \<open>commit\<close>, \<open>pr\<close> and
  \<open>collaborator\<close> with the required signatures, and its input bindings bind the two
  declared identifiers: \<open>ce\<close> to the event document, and \<open>cat\<close> to one string,
  whatever the event document is. The environment of the single-expression program
  declares exactly \<open>ce\<close>, \<open>commit\<close> and \<open>collaborator\<close>, and its input bindings bind
  \<open>ce\<close> only. In both programs the bound functions are the declared ones.
\<close>

theorem declared_environments:
  "required_declarations decls_yaml \<and>
   declared_idents decls_yaml = [(''ce'', Dyn), (''cat'', TString)] \<and>
   declared_functions decls_yaml =
     [(''commit'', [TString, TString, TString], Dyn),
      (''pr'', [TString, TString, TInt], Dyn),
      (''collaborator'', [TString, TString, TString], TBool)] \<and>
   map Operator (funcs_yaml gh js) = map fst (declared_functions decls_yaml) \<and>
   map_of (activation_yaml cloudEvent) ''ce'' = Some (NMap cloudEvent) \<and>
   map_of (activation_yaml cloudEvent) ''cat''
     = Some (NString [CHR 0xF0, CHR 0x9F, CHR 0x90, CHR 0xB1]) \<and>
   set (map fst (activation_yaml cloudEvent)) = set (map fst (declared_idents decls_yaml)) \<and>
   declared_idents decls_single = [(''ce'', Dyn)] \<and>
   declared_functions decls_single =
     [(''commit'', [TString, TString, TString], Dyn),
      (''collaborator'', [TString, TString, TString], TBool)] \<and>
   map Operator (funcs_single gh js) = map fst (declared_functions decls_single) \<and>
   map_of (activation_single cloudEvent) ''ce'' = Some (NMap cloudEvent) \<and>
   map_of (activation_single cloudEvent) ''cat'' = None \<and>
   set (map fst (activation_single cloudEvent)) = set (map fst (declared_idents decls_single))"
proof -
  have y: "declared_idents decls_yaml = [(''ce'', Dyn), (''cat'', TString)]"
    "declared_functions decls_yaml =
     [(''commit'', [TString, TString, TString], Dyn),
      (''pr'', [TString, TString, TInt], Dyn),
      (''collaborator'', [TString, TString, TString], TBool)]"
    by (simp_all add: decls_yaml_def)
  have s: "declared_idents decls_single = [(''ce'', Dyn)]"
    "declared_functions decls_single =
     [(''commit'', [TString, TString, TString], Dyn),
      (''collaborator'', [TString, TString, TString], TBool)]"
    by (simp_all add: decls_single_def)
  have r: "required_declarations decls_yaml"
    unfolding required_declarations_def y by auto
  have f: "map Operator (funcs_yaml gh js) = map fst (declared_functions decls_yaml)"
    "map Operator (funcs_single gh js) = map fst (declared_functions decls_single)"
    unfolding y s by (simp_all add: funcs_yaml_def funcs_single_def)
  have ay: "map_of (activation_yaml cloudEvent) ''ce'' = Some (NMap cloudEvent)"
    "map_of (activation_yaml cloudEvent) ''cat''
       = Some (NString [CHR 0xF0, CHR 0x9F, CHR 0x90, CHR 0xB1])"
    "set (map fst (activation_yaml cloudEvent)) = set (map fst (declared_idents decls_yaml))"
    unfolding y by (auto simp: activation_yaml_def cat_def)
  have as: "map_of (activation_single cloudEvent) ''ce'' = Some (NMap cloudEvent)"
    "map_of (activation_single cloudEvent) ''cat'' = None"
    "set (map fst (activation_single cloudEvent)) = set (map fst (declared_idents decls_single))"
    unfolding s by (simp_all add: activation_single_def)
  from y s r f ay as show ?thesis by (intro conjI)
qed

section \<open>Value Adapter: round trip\<close>

text \<open>
  Claim C8. Converting a directly-convertible native value to an engine value and back
  gives the value again.
\<close>

theorem adapter_round_trip: "directly_convertible v \<longrightarrow> Value (NativeToValue v) = v"
  using Value_NativeToValue by (rule impI)

theorem adapter_round_trip_witness:
  "directly_convertible
     (NMap [(''type'', NString ''x''), (''n'', NInt 5), (''nested'', NMap [(''ok'', NBool True)])]) \<and>
   Value (NativeToValue
     (NMap [(''type'', NString ''x''), (''n'', NInt 5), (''nested'', NMap [(''ok'', NBool True)])]))
   = NMap [(''type'', NString ''x''), (''n'', NInt 5), (''nested'', NMap [(''ok'', NBool True)])]"
proof -
  let ?v = "NMap [(''type'', NString ''x''), (''n'', NInt 5), (''nested'', NMap [(''ok'', NBool True)])]"
  have h: "directly_convertible ?v" by simp
  with adapter_round_trip [of ?v] show ?thesis by blast
qed

section \<open>Single-expression program: the default expression\<close>

text \<open>
  Claim C9. With the modelled engine, the single-expression program evaluates the default
  expression to \<open>true\<close> when the event document decodes to the mapping of \<open>type\<close> to
  \<open>com.example.someevent\<close>, and to \<open>false\<close> when it decodes to the mapping of \<open>type\<close>
  to \<open>x\<close>.
\<close>

theorem default_expression_end_to_end:
  "(Unmarshal js ceJSON = Inr [(''type'', NString ''com.example.someevent'')] \<longrightarrow>
      main_single js gh cel_go defaultExpr ceJSON = Inr (VBool True)) \<and>
   (Unmarshal js ceJSON = Inr [(''type'', NString ''x'')] \<longrightarrow>
      main_single js gh cel_go defaultExpr ceJSON = Inr (VBool False))"
proof (intro conjI impI)
  assume "Unmarshal js ceJSON = Inr [(''type'', NString ''com.example.someevent'')]"
  then have "main_single js gh cel_go defaultExpr ceJSON
      = Inr (VBool (''com.example.someevent'' = ''com.example.someevent''))"
    by (rule main_single_default)
  then show "main_single js gh cel_go defaultExpr ceJSON = Inr (VBool True)" by simp
next
  assume "Unmarshal js ceJSON = Inr [(''type'', NString ''x'')]"
  then have "main_single js gh cel_go defaultExpr ceJSON
      = Inr (VBool (''x'' = ''com.example.someevent''))"
    by (rule main_single_default)
  then show "main_single js gh cel_go defaultExpr ceJSON = Inr (VBool False)" by simp
qed

theorem default_expression_end_to_end_witness:
  "Unmarshal stub_json someevent_json = Inr [(''type'', NString ''com.example.someevent'')] \<and>
   main_single stub_json stub_github cel_go defaultExpr someevent_json = Inr (VBool True) \<and>
   Unmarshal stub_json x_json = Inr [(''type'', NString ''x'')] \<and>
   main_single stub_json stub_github cel_go defaultExpr x_json = Inr (VBool False)"
proof -
  have a: "Unmarshal stub_json someevent_json = Inr [(''type'', NString ''com.example.someevent'')]"
    and b: "Unmarshal stub_json x_json = Inr [(''type'', NString ''x'')]"
    by (simp_all add: stub_json_def someevent_json_def x_json_def)
  from default_expression_end_to_end [of stub_json someevent_json stub_github] a
  have "main_single stub_json stub_github cel_go defaultExpr someevent_json = Inr (VBool True)"
    by blast
  moreover from default_expression_end_to_end [of stub_json x_json stub_github] b
  have "main_single stub_json stub_github cel_go defaultExpr x_json = Inr (VBool False)"
    by blast
  ultimately show ?thesis using a b by (intro conjI)
qed

section \<open>Template Scanner: replacements are committed key by key\<close>

text \<open>
  Claim C10. When the keys \<open>ks1\<close> are processed without failure and the next key \<open>k\<close>
  fails, the loop ends at \<open>k\<close> with the document \<open>d1\<close> in memory, in which every
  placeholder among \<open>ks1\<close> has already been replaced by its value; \<open>main\<close> ends with
  the failure and returns no document.
\<close>

theorem replacements_committed_before_abort:
  assumes "Unmarshal js ceJSON = Inr ce" and "NewEnv L decls_yaml = Inr e"
    and "yaml_Unmarshal expr = Inr d" and "range_keys d = ks1 @ k # ks2" and "distinct ks1"
    and "scan L e (funcs_yaml gh js) ce ks1 d = Inr d1"
    and "scan_key L e (funcs_yaml gh js) ce d1 k = Inl x"
  shows "scan L e (funcs_yaml gh js) ce (range_keys d) d = Inl (x, d1) \<and>
    (\<forall>k' \<in> set ks1. \<forall>s. d k' = Some (NString s) \<and> regexp_Match s \<longrightarrow>
       (\<exists>out. evaluate L e (funcs_yaml gh js) ce (inner_text s) = Inr out \<and>
          d1 k' = Some (Value out))) \<and>
    main_yaml js yaml_Unmarshal range_keys gh L expr ceJSON = Inl x"
proof (intro conjI ballI allI impI)
  show run: "scan L e (funcs_yaml gh js) ce (range_keys d) d = Inl (x, d1)"
    using assms(4,6,7) by (simp add: scan_append)
  show "main_yaml js yaml_Unmarshal range_keys gh L expr ceJSON = Inl x"
    using assms(1,2,3) run by (simp add: main_yaml_def)
next
  fix k' s assume "k' \<in> set ks1" and "d k' = Some (NString s) \<and> regexp_Match s"
  then have "k' \<in> set ks1" "d k' = Some (NString s)" "regexp_Match s" by simp_all
  with assms(6,5)
  show "\<exists>out. evaluate L e (funcs_yaml gh js) ce (inner_text s) = Inr out \<and>
      d1 k' = Some (Value out)"
    by (rule scan_replaced)
qed

theorem replacements_committed_before_abort_witness:
  "scan cel_go decls_yaml (funcs_yaml stub_github stub_json) [(''type'', NString ''x'')]
      sample_keys broken_template
     = Inl (Fatal ''undeclared reference to dog'',
            broken_template(NString ''a'' \<mapsto> NBool True)) \<and>
   broken_template (NString ''a'') = Some (NString ''$(true)'') \<and>
   (broken_template(NString ''a'' \<mapsto> NBool True)) (NString ''a'') = Some (NBool True) \<and>
   main_yaml stub_json stub_yaml (\<lambda>d. sample_keys) stub_github cel_go broken_yaml x_json
     = Inl (Fatal ''undeclared reference to dog'')"
proof -
  let ?f = "funcs_yaml stub_github stub_json"
  let ?ce = "[(''type'', NString ''x'')]"
  let ?d1 = "broken_template(NString ''a'' \<mapsto> NBool True)"
  have h1: "Unmarshal stub_json x_json = Inr ?ce"
    by (simp add: stub_json_def someevent_json_def x_json_def)
  have h2: "NewEnv cel_go decls_yaml = Inr decls_yaml" by (simp add: cel_go_sel NewEnv_yaml)
  have h3: "stub_yaml broken_yaml = Inr broken_template"
    by (simp add: stub_yaml_def sample_yaml_def broken_yaml_def)
  have h4: "(\<lambda>d::document. sample_keys) broken_template = [NString ''a''] @ NString ''b'' # []"
    by (simp add: sample_keys_def)
  have h5: "distinct [NString ''a'']" by simp
  have h6: "scan cel_go decls_yaml ?f ?ce [NString ''a''] broken_template = Inr ?d1"
    by (simp add: broken_template_def scan_key_def evaluate_true inner_text_true)
  have h7: "scan_key cel_go decls_yaml ?f ?ce ?d1 (NString ''b'')
      = Inl (Fatal ''undeclared reference to dog'')"
    by (simp add: broken_template_def scan_key_def inner_text_dog evaluate_dog)
  note t = replacements_committed_before_abort [where range_keys = "\<lambda>d. sample_keys"
      and yaml_Unmarshal = stub_yaml and expr = broken_yaml and d = broken_template,
      OF h1 h2 h3 h4 h5 h6 h7]
  have a: "broken_template (NString ''a'') = Some (NString ''$(true)'')"
    by (simp add: broken_template_def)
  from t a show ?thesis by simp
qed

end
